theory Spec2Isabelle
  imports Main "HOL-Library.Word" "HOL-Library.Multiset" "HOL-Library.AList"
begin

unbundle bit_operations_syntax

section \<open>Data model\<close>

text \<open>
  Go's \<open>uint32\<close> and \<open>int32\<close> are 32-bit words; \<open>+\<close> on them wraps around. A value of
  type \<open>int32\<close> is read through \<open>sint\<close>. The conversion \<open>int32(w)\<close> of a \<open>uint32\<close> keeps
  the bits, so it is the identity on words.
\<close>

type_synonym uint32 = "32 word"
type_synonym int32 = "32 word"

text \<open>
  A Go \<open>map[string]string\<close> of labels is an association list with distinct keys; the
  order of the list stands for the order in which \<open>range\<close> visits the entries, and
  \<open>len\<close> is the length of the list.
\<close>

type_synonym labels = "(string \<times> string) list"

subsection \<open>The policy document (package v1alpha1, fields read by the filter engine)\<close>

record TrafficSplitElem =
  Cluster :: string
  Weight :: uint32

text \<open>
  The declarations of the policy types are not among the sources; the weight of an
  entry is a \<open>uint32\<close>, which \<open>AddToFilter\<close> converts to \<open>int32\<close>.
\<close>

text \<open>
  \<open>AppSelectorLabel\<close> is \<open>Spec.MatchRules.AppSelector.Label\<close>, \<open>NamespaceSelectorLabel\<close> is
  \<open>Spec.MatchRules.NamespaceSelector.Label\<close>; \<open>MatchClusters\<close> and \<open>TrafficSplit\<close> are the
  fields of \<open>Spec\<close> of these names.
\<close>

record GlobalDeploymentPolicy =
  AppSelectorLabel :: labels
  NamespaceSelectorLabel :: labels
  MatchClusters :: "string list"
  TrafficSplit :: "TrafficSplitElem list"

subsection \<open>The global filter (package gslbutils)\<close>

record Label =
  Key :: string
  Value :: string

text \<open>\<open>AppFilter\<close> is a struct that embeds \<open>Label\<close> and has no field of its own.\<close>

type_synonym AppFilter = Label

record NamespaceFilter = Label +
  SelectedNS :: "string \<rightharpoonup> string list"
  Checksum :: uint32

record ClusterTraffic =
  ClusterName :: string
  Weight :: int32

text \<open>A nil pointer is \<open>None\<close>. The locks are not part of the model.\<close>

record GlobalFilter =
  AppFilter :: "AppFilter option"
  NSFilter :: "NamespaceFilter option"
  TrafficSplit :: "ClusterTraffic list"
  ApplicableClusters :: "string list"
  Checksum :: uint32

subsection \<open>Object metadata (package k8sobjects)\<close>

record IngressHostMeta =
  Cluster :: string
  IngName :: string
  ObjName :: string
  Namespace :: string
  Hostname :: string
  IPAddr :: string
  Labels :: labels
  Paths :: "string list"
  TLS :: bool

record RouteMeta =
  Cluster :: string
  Name :: string
  Namespace :: string
  Hostname :: string
  IPAddr :: string
  Labels :: labels
  Paths :: "string list"
  TLS :: bool
  Port :: int32
  Protocol :: string
  Passthrough :: bool

record IPHostname =
  IP :: string
  Hostname :: string

text \<open>
  The ingress object of the Kubernetes API, with the fields the code reads: the name,
  namespace and labels of its metadata, the rules and the TLS entries of its spec. The
  \<open>HTTP\<close> field of a rule is a pointer, \<open>None\<close> when nil.
\<close>

record HTTPIngressPath =
  Path :: string

record IngressRule =
  Host :: string
  HTTP :: "HTTPIngressPath list option"

record IngressTLS =
  Hosts :: "string list"

record Ingress =
  Name :: string
  Namespace :: string
  Labels :: labels
  Rules :: "IngressRule list"
  TLS :: "IngressTLS list"

text \<open>An element of the list returned by \<open>gslbutils.IngressGetIPAddrs\<close>.\<close>

record IngressHostIP =
  Hostname :: string
  IPAddr :: string

section \<open>Library functions\<close>

text \<open>
  \<open>utils.Hash\<close> belongs to an imported library: every function that hashes takes the
  hash as its first argument \<open>H\<close>. \<open>fnv1a32\<close> (32-bit FNV-1a over the bytes of the
  string) is the instance used where a concrete hash is evaluated.
\<close>

definition fnv1a32 :: "string \<Rightarrow> uint32" where
  "fnv1a32 s = foldl (\<lambda>h c. (h XOR of_nat (of_char c)) * 16777619) 2166136261 s"

text \<open>\<open>strconv.Itoa\<close>: the decimal notation of an integer.\<close>

fun digits :: "nat \<Rightarrow> string" where
  "digits n =
     (if n < 10 then [''0123456789'' ! n]
      else digits (n div 10) @ [''0123456789'' ! (n mod 10)])"

declare digits.simps [simp del]

definition Itoa :: "int \<Rightarrow> string" where
  "Itoa i = (if i < 0 then CHR ''-'' # digits (nat (- i)) else digits (nat i))"

section \<open>The global filter engine\<close>

fun PresentInList :: "string \<Rightarrow> string list \<Rightarrow> bool" where
  "PresentInList key [] = False"
| "PresentInList key (str # strList) = (if str = key then True else PresentInList key strList)"

text \<open>The first entry that \<open>range\<close> visits, the pair of empty strings for an empty map.\<close>

fun getLabelKeyAndValue :: "labels \<Rightarrow> string \<times> string" where
  "getLabelKeyAndValue [] = ([], [])"
| "getLabelKeyAndValue ((k, v) # lbl) = (k, v)"

text \<open>\<open>SelectedNS\<close> is left nil by the constructor; reading a nil map finds no key.\<close>

definition createNewNSFilter :: "(string \<Rightarrow> uint32) \<Rightarrow> labels \<Rightarrow> NamespaceFilter" where
  "createNewNSFilter H lbl =
     (case getLabelKeyAndValue lbl of
        (k, v) \<Rightarrow> \<lparr>Key = k, Value = v, SelectedNS = Map.empty,
                    NamespaceFilter.Checksum = H (k @ v)\<rparr>)"

definition GetNewGlobalFilter :: GlobalFilter where
  "GetNewGlobalFilter =
     \<lparr>AppFilter = None, NSFilter = None, GlobalFilter.TrafficSplit = [],
      ApplicableClusters = [], GlobalFilter.Checksum = 0\<rparr>"

definition ComputeChecksum :: "(string \<Rightarrow> uint32) \<Rightarrow> GlobalFilter \<Rightarrow> GlobalFilter" where
  "ComputeChecksum H gf =
     (let cksum0 = (0 :: uint32);
          cksum1 = (case AppFilter gf of
                      None \<Rightarrow> cksum0
                    | Some af \<Rightarrow> cksum0 + H (Key af @ Value af));
          cksum2 = (case NSFilter gf of
                      None \<Rightarrow> cksum1
                    | Some nsf \<Rightarrow> cksum1 + NamespaceFilter.Checksum nsf);
          cksum3 = foldl (\<lambda>cksum c. cksum + H c) cksum2 (ApplicableClusters gf);
          cksum4 = foldl (\<lambda>cksum ts. cksum + H (ClusterName ts @ Itoa (sint (ClusterTraffic.Weight ts))))
                     cksum3 (GlobalFilter.TrafficSplit gf)
      in gf\<lparr>GlobalFilter.Checksum := cksum4\<rparr>)"

definition AddToFilter ::
  "(string \<Rightarrow> uint32) \<Rightarrow> GlobalFilter \<Rightarrow> GlobalDeploymentPolicy \<Rightarrow> GlobalFilter" where
  "AddToFilter H gf gdp =
     (let gf1 = (if length (AppSelectorLabel gdp) = 1
                 then (case getLabelKeyAndValue (AppSelectorLabel gdp) of
                         (k, v) \<Rightarrow> gf\<lparr>AppFilter := Some \<lparr>Key = k, Value = v\<rparr>\<rparr>)
                 else gf);
          gf2 = (if length (NamespaceSelectorLabel gdp) = 1
                 then gf1\<lparr>NSFilter := Some (createNewNSFilter H (NamespaceSelectorLabel gdp))\<rparr>
                 else gf1);
          gf3 = gf2\<lparr>ApplicableClusters := MatchClusters gdp\<rparr>;
          gf4 = foldl (\<lambda>g ts. g\<lparr>GlobalFilter.TrafficSplit :=
                                  GlobalFilter.TrafficSplit g @
                                    [\<lparr>ClusterName = TrafficSplitElem.Cluster ts,
                                      ClusterTraffic.Weight = TrafficSplitElem.Weight ts\<rparr>]\<rparr>)
                  gf3 (GlobalDeploymentPolicy.TrafficSplit gdp)
      in ComputeChecksum H gf4)"

text \<open>
  The inner loop of \<open>isTrafficWeightChanged\<close> over the new members, for one old member:
  the first component says that the function returned true inside the loop, the second
  is the variable \<open>found\<close> when the loop ends.
\<close>

fun scanNewMembers :: "TrafficSplitElem \<Rightarrow> TrafficSplitElem list \<Rightarrow> bool \<Rightarrow> bool \<times> bool" where
  "scanNewMembers oldMember [] found = (False, found)"
| "scanNewMembers oldMember (newMember # rest) found =
     (if TrafficSplitElem.Cluster oldMember = TrafficSplitElem.Cluster newMember
      then (if TrafficSplitElem.Weight oldMember \<noteq> TrafficSplitElem.Weight newMember
            then (True, True)
            else scanNewMembers oldMember rest True)
      else scanNewMembers oldMember rest found)"

fun scanOldMembers :: "TrafficSplitElem list \<Rightarrow> TrafficSplitElem list \<Rightarrow> bool" where
  "scanOldMembers [] newSplit = False"
| "scanOldMembers (oldMember # rest) newSplit =
     (case scanNewMembers oldMember newSplit False of
        (True, found) \<Rightarrow> True
      | (False, found) \<Rightarrow> (if found = False then True else scanOldMembers rest newSplit))"

definition isTrafficWeightChanged ::
  "GlobalDeploymentPolicy \<Rightarrow> GlobalDeploymentPolicy \<Rightarrow> bool" where
  "isTrafficWeightChanged new old =
     (if length (GlobalDeploymentPolicy.TrafficSplit old)
           \<noteq> length (GlobalDeploymentPolicy.TrafficSplit new)
      then True
      else scanOldMembers (GlobalDeploymentPolicy.TrafficSplit old)
             (GlobalDeploymentPolicy.TrafficSplit new))"

text \<open>The result is the live filter after the call and the two returned booleans.\<close>

definition UpdateGlobalFilter ::
  "(string \<Rightarrow> uint32) \<Rightarrow> GlobalFilter \<Rightarrow> GlobalDeploymentPolicy \<Rightarrow> GlobalDeploymentPolicy
     \<Rightarrow> GlobalFilter \<times> bool \<times> bool" where
  "UpdateGlobalFilter H gf oldGDP newGDP =
     (let nf = AddToFilter H GetNewGlobalFilter newGDP
      in if GlobalFilter.Checksum gf = GlobalFilter.Checksum nf
         then (gf, False, False)
         else (gf\<lparr>AppFilter := AppFilter nf,
                   NSFilter := NSFilter nf,
                   GlobalFilter.TrafficSplit := GlobalFilter.TrafficSplit nf,
                   ApplicableClusters := ApplicableClusters nf,
                   GlobalFilter.Checksum := GlobalFilter.Checksum nf\<rparr>,
               True, isTrafficWeightChanged newGDP oldGDP))"

definition DeleteFromGlobalFilter :: "GlobalFilter \<Rightarrow> GlobalFilter" where
  "DeleteFromGlobalFilter gf =
     gf\<lparr>AppFilter := None, NSFilter := None, ApplicableClusters := [],
        GlobalFilter.Checksum := 0, GlobalFilter.TrafficSplit := []\<rparr>"

section \<open>Object metadata\<close>

fun applyAppFilter :: "labels \<Rightarrow> AppFilter \<Rightarrow> bool" where
  "applyAppFilter [] appFilter = False"
| "applyAppFilter ((k, v) # ihmLabels) appFilter =
     (if k = Key appFilter \<and> v = Value appFilter then True
      else applyAppFilter ihmLabels appFilter)"

text \<open>
  \<open>ApplyFilter\<close> reads the global filter, which is passed as an argument. The steps
  after the cluster test depend on the candidate only through its cluster, namespace
  and labels, and are the same for both kinds of object.
\<close>

definition IngressHostMeta_ApplyFilter :: "GlobalFilter \<Rightarrow> IngressHostMeta \<Rightarrow> bool" where
  "IngressHostMeta_ApplyFilter gf ihm =
     (if \<not> PresentInList (IngressHostMeta.Cluster ihm) (ApplicableClusters gf) then False
      else case NSFilter gf of
        Some nsFilter \<Rightarrow>
          (case SelectedNS nsFilter (IngressHostMeta.Cluster ihm) of
             None \<Rightarrow> False
           | Some nsList \<Rightarrow>
               if PresentInList (IngressHostMeta.Namespace ihm) nsList
               then (case AppFilter gf of
                       None \<Rightarrow> True
                     | Some appFilter \<Rightarrow>
                         if applyAppFilter (IngressHostMeta.Labels ihm) appFilter then True
                         else False)
               else False)
      | None \<Rightarrow>
          (case AppFilter gf of
             None \<Rightarrow> False
           | Some appFilter \<Rightarrow>
               if \<not> applyAppFilter (IngressHostMeta.Labels ihm) appFilter then False
               else True))"

definition RouteMeta_ApplyFilter :: "GlobalFilter \<Rightarrow> RouteMeta \<Rightarrow> bool" where
  "RouteMeta_ApplyFilter gf route =
     (if \<not> PresentInList (RouteMeta.Cluster route) (ApplicableClusters gf) then False
      else case NSFilter gf of
        Some nsFilter \<Rightarrow>
          (case SelectedNS nsFilter (RouteMeta.Cluster route) of
             None \<Rightarrow> False
           | Some nsList \<Rightarrow>
               if PresentInList (RouteMeta.Namespace route) nsList
               then (case AppFilter gf of
                       None \<Rightarrow> True
                     | Some appFilter \<Rightarrow>
                         if applyAppFilter (RouteMeta.Labels route) appFilter then True
                         else False)
               else False)
      | None \<Rightarrow>
          (case AppFilter gf of
             None \<Rightarrow> False
           | Some appFilter \<Rightarrow>
               if \<not> applyAppFilter (RouteMeta.Labels route) appFilter then False
               else True))"

text \<open>
  A Go result \<open>(value, error)\<close> is a pair whose second component is \<open>None\<close> for a nil
  error and the message of the error otherwise.
\<close>

definition IngressHostMeta_GetPort :: "IngressHostMeta \<Rightarrow> int32 \<times> string option" where
  "IngressHostMeta_GetPort ing = (0, Some ''ingress object doesn't support GetPort function'')"

definition IngressHostMeta_GetProtocol :: "IngressHostMeta \<Rightarrow> string \<times> string option" where
  "IngressHostMeta_GetProtocol ing =
     ([], Some ''ingress object doesn't support GetProtocol function'')"

definition RouteMeta_GetPort :: "RouteMeta \<Rightarrow> int32 \<times> string option" where
  "RouteMeta_GetPort route =
     (if Passthrough route then (Port route, None)
      else (0, Some ''route object doesn't support GetPort function''))"

definition RouteMeta_GetProtocol :: "RouteMeta \<Rightarrow> string \<times> string option" where
  "RouteMeta_GetProtocol route =
     (if Passthrough route then (Protocol route, None)
      else ([], Some ''route object doesn't support GetProtocol support''))"

subsection \<open>Expansion of an ingress into its hosts\<close>

text \<open>
  The loop of \<open>getPathsForHost\<close> over the paths of one rule, with \<open>pathList\<close> as the
  accumulator.
\<close>

fun addRulePaths :: "HTTPIngressPath list \<Rightarrow> string list \<Rightarrow> string list" where
  "addRulePaths [] pathList = pathList"
| "addRulePaths (path # rest) pathList =
     (let pathKey = (if Path path \<noteq> [] then Path path else ''/'')
      in if PresentInList pathKey pathList then addRulePaths rest pathList
         else addRulePaths rest (pathList @ [pathKey]))"

text \<open>
  The loop over the rules: a rule of another host is skipped; the rule of the host adds
  its paths and then leaves the loop (\<open>break\<close>).
\<close>

fun scanRules :: "string \<Rightarrow> IngressRule list \<Rightarrow> string list \<Rightarrow> string list" where
  "scanRules host [] pathList = pathList"
| "scanRules host (rule # rest) pathList =
     (if Host rule \<noteq> host then scanRules host rest pathList
      else (case HTTP rule of
              None \<Rightarrow> pathList
            | Some paths \<Rightarrow> addRulePaths paths pathList))"

definition getPathsForHost :: "string \<Rightarrow> Ingress \<Rightarrow> string list" where
  "getPathsForHost host ingress =
     (let pathList = scanRules host (Rules ingress) []
      in if length pathList = 0 then pathList @ [''/''] else pathList)"

fun addTLSHosts :: "string list \<Rightarrow> string list \<Rightarrow> string list" where
  "addTLSHosts [] tlsHosts = tlsHosts"
| "addTLSHosts (host # rest) tlsHosts =
     (if PresentInList host tlsHosts then addTLSHosts rest tlsHosts
      else addTLSHosts rest (tlsHosts @ [host]))"

definition getTLSHosts :: "Ingress \<Rightarrow> string list" where
  "getTLSHosts ingress = foldl (\<lambda>tlsHosts hosts. addTLSHosts (Hosts hosts) tlsHosts) [] (Ingress.TLS ingress)"

text \<open>
  \<open>gslbutils.IngressGetIPAddrs\<close>, which lists the hosts of the ingress that have an IP
  address, is the argument \<open>IngressGetIPAddrs\<close>. The labels are copied entry by entry
  into a new map.
\<close>

definition GetIngressHostMeta ::
  "(Ingress \<Rightarrow> IngressHostIP list) \<Rightarrow> Ingress \<Rightarrow> string \<Rightarrow> IngressHostMeta list" where
  "GetIngressHostMeta IngressGetIPAddrs ingress cname =
     (let hostIPList = IngressGetIPAddrs ingress;
          tlsHosts = getTLSHosts ingress
      in map (\<lambda>hip.
            \<lparr>IngressHostMeta.Cluster = cname,
             IngName = Ingress.Name ingress,
             ObjName = Ingress.Name ingress @ ''/'' @ IngressHostIP.Hostname hip,
             IngressHostMeta.Namespace = Ingress.Namespace ingress,
             IngressHostMeta.Hostname = IngressHostIP.Hostname hip,
             IngressHostMeta.IPAddr = IngressHostIP.IPAddr hip,
             IngressHostMeta.Labels =
               foldl (\<lambda>m (key, value). AList.update key value m) [] (Ingress.Labels ingress),
             IngressHostMeta.Paths = getPathsForHost (IngressHostIP.Hostname hip) ingress,
             IngressHostMeta.TLS = (if PresentInList (IngressHostIP.Hostname hip) tlsHosts
                                    then True else False)\<rparr>)
          hostIPList)"

text \<open>
  The path list of a host as the specification words it: the paths of all HTTP rules of
  the host, without duplicates, in the order of their first occurrence, and \<open>"/"\<close> alone
  when there is none.
\<close>

fun dedup :: "string list \<Rightarrow> string list \<Rightarrow> string list" where
  "dedup seen [] = []"
| "dedup seen (x # xs) = (if x \<in> set seen then dedup seen xs else x # dedup (x # seen) xs)"

definition rulePaths :: "IngressRule \<Rightarrow> string list" where
  "rulePaths rule = (case HTTP rule of None \<Rightarrow> [] | Some paths \<Rightarrow> map Path paths)"

definition specPathsForHost :: "string \<Rightarrow> Ingress \<Rightarrow> string list" where
  "specPathsForHost host ingress =
     (let ps = dedup [] (concat (map rulePaths (filter (\<lambda>rule. Host rule = host) (Rules ingress))))
      in if ps = [] then [''/''] else ps)"

text \<open>
  The path list the code computes: the paths of the first rule of the host only, an
  empty path standing for \<open>"/"\<close>.
\<close>

definition pathKeyOf :: "string \<Rightarrow> string" where
  "pathKeyOf p = (if p \<noteq> [] then p else ''/'')"

definition firstRulePathsForHost :: "string \<Rightarrow> Ingress \<Rightarrow> string list" where
  "firstRulePathsForHost host ingress =
     (case find (\<lambda>rule. Host rule = host) (Rules ingress) of
        None \<Rightarrow> [''/'']
      | Some rule \<Rightarrow>
          (let ps = dedup [] (map pathKeyOf (rulePaths rule))
           in if ps = [] then [''/''] else ps))"

subsection \<open>The host memory cache of the ingress hosts\<close>

record ObjHostMap =
  HostMap :: "string \<rightharpoonup> IPHostname"

text \<open>
  The package variables \<open>ihMapInit\<close> (has the once-guarded initialisation run) and
  \<open>ihMap\<close>. Every function takes the variables and returns them.
\<close>

record hostMapVars =
  ihMapInit :: bool
  ihMap :: ObjHostMap

definition initialHostMapVars :: hostMapVars where
  "initialHostMapVars = \<lparr>ihMapInit = False, ihMap = \<lparr>HostMap = Map.empty\<rparr>\<rparr>"

definition getIngHostMap :: "hostMapVars \<Rightarrow> hostMapVars" where
  "getIngHostMap s =
     (if ihMapInit s then s
      else s\<lparr>ihMap := (ihMap s)\<lparr>HostMap := Map.empty\<rparr>, ihMapInit := True\<rparr>)"

definition UpdateHostMap :: "IngressHostMeta \<Rightarrow> string \<Rightarrow> hostMapVars \<Rightarrow> hostMapVars" where
  "UpdateHostMap ing key s =
     (let rhm = getIngHostMap s
      in rhm\<lparr>ihMap := (ihMap rhm)\<lparr>HostMap := (HostMap (ihMap rhm))
                (key \<mapsto> \<lparr>IP = IngressHostMeta.IPAddr ing,
                           IPHostname.Hostname = IngressHostMeta.Hostname ing\<rparr>)\<rparr>\<rparr>)"

definition GetHostnameFromHostMap ::
  "IngressHostMeta \<Rightarrow> string \<Rightarrow> hostMapVars \<Rightarrow> string \<times> hostMapVars" where
  "GetHostnameFromHostMap ing key s =
     (let ihm = getIngHostMap s
      in case HostMap (ihMap ihm) key of
           None \<Rightarrow> ([], ihm)
         | Some ipHostname \<Rightarrow> (IPHostname.Hostname ipHostname, ihm))"

definition DeleteMapByKey :: "IngressHostMeta \<Rightarrow> string \<Rightarrow> hostMapVars \<Rightarrow> hostMapVars" where
  "DeleteMapByKey ing key s =
     (let ihm = getIngHostMap s
      in ihm\<lparr>ihMap := (ihMap ihm)\<lparr>HostMap := (HostMap (ihMap ihm))(key := None)\<rparr>\<rparr>)"

text \<open>
  A history of the cache: the calls made on it since the start of the process, each by
  some ingress host. \<open>runCalls\<close> makes them in order.
\<close>

datatype hostMapCall =
  CallUpdate IngressHostMeta string
| CallGet IngressHostMeta string
| CallDelete IngressHostMeta string

fun runCall :: "hostMapCall \<Rightarrow> hostMapVars \<Rightarrow> hostMapVars" where
  "runCall (CallUpdate ing key) s = UpdateHostMap ing key s"
| "runCall (CallGet ing key) s = snd (GetHostnameFromHostMap ing key s)"
| "runCall (CallDelete ing key) s = DeleteMapByKey ing key s"

fun runCalls :: "hostMapCall list \<Rightarrow> hostMapVars \<Rightarrow> hostMapVars" where
  "runCalls [] s = s"
| "runCalls (c # cs) s = runCalls cs (runCall c s)"

fun updatedKeys :: "hostMapCall list \<Rightarrow> string list" where
  "updatedKeys [] = []"
| "updatedKeys (CallUpdate ing key # cs) = key # updatedKeys cs"
| "updatedKeys (c # cs) = updatedKeys cs"

section \<open>The cluster object store\<close>

text \<open>
  Modelled from the spec: the type \<open>gslbutils.ClusterStore\<close> and its methods
  \<open>AddOrUpdate\<close> and \<open>DeleteClusterNSObj\<close> are not among the sources. The store is a
  three-level index, cluster to namespace to object name to metadata; \<open>AddOrUpdate\<close> is
  an upsert that overwrites, \<open>DeleteClusterNSObj (cluster, namespace, name)\<close> removes the
  entry if it is present and does nothing otherwise.
\<close>

type_synonym 'a ClusterStore = "string \<rightharpoonup> (string \<rightharpoonup> (string \<rightharpoonup> 'a))"

definition AddOrUpdate ::
  "'a ClusterStore \<Rightarrow> 'a \<Rightarrow> string \<Rightarrow> string \<Rightarrow> string \<Rightarrow> 'a ClusterStore" where
  "AddOrUpdate store obj cname ns objName =
     (let nsMap = (case store cname of None \<Rightarrow> Map.empty | Some m \<Rightarrow> m);
          objMap = (case nsMap ns of None \<Rightarrow> Map.empty | Some m \<Rightarrow> m)
      in store(cname \<mapsto> nsMap(ns \<mapsto> objMap(objName \<mapsto> obj))))"

definition DeleteClusterNSObj ::
  "'a ClusterStore \<Rightarrow> string \<Rightarrow> string \<Rightarrow> string \<Rightarrow> 'a ClusterStore" where
  "DeleteClusterNSObj store cname ns objName =
     (case store cname of
        None \<Rightarrow> store
      | Some nsMap \<Rightarrow>
          (case nsMap ns of
             None \<Rightarrow> store
           | Some objMap \<Rightarrow> store(cname \<mapsto> nsMap(ns \<mapsto> objMap(objName := None)))))"

definition GetClusterNSObjectByName ::
  "'a ClusterStore \<Rightarrow> string \<Rightarrow> string \<Rightarrow> string \<Rightarrow> 'a option" where
  "GetClusterNSObjectByName store cname ns objName =
     (case store cname of
        None \<Rightarrow> None
      | Some nsMap \<Rightarrow> (case nsMap ns of None \<Rightarrow> None | Some objMap \<Rightarrow> objMap objName))"

text \<open>
  The functions of package ingestion on the store. The store is passed by pointer:
  \<open>None\<close> is the nil pointer, which \<open>DeleteFromIngressStore\<close> tests first;
  \<open>AddOrUpdateIngressStore\<close> is given a store that exists.
\<close>

definition AddOrUpdateIngressStore ::
  "IngressHostMeta ClusterStore \<Rightarrow> IngressHostMeta \<Rightarrow> string \<Rightarrow> IngressHostMeta ClusterStore" where
  "AddOrUpdateIngressStore clusterRouteStore ingHost cname =
     AddOrUpdate clusterRouteStore ingHost cname
       (IngressHostMeta.Namespace ingHost) (ObjName ingHost)"

definition DeleteFromIngressStore ::
  "IngressHostMeta ClusterStore option \<Rightarrow> IngressHostMeta \<Rightarrow> string
     \<Rightarrow> IngressHostMeta ClusterStore option" where
  "DeleteFromIngressStore clusterIngStore ingHost cname =
     (case clusterIngStore of
        None \<Rightarrow> None
      | Some store \<Rightarrow>
          Some (DeleteClusterNSObj store (ObjName ingHost)
                  (IngressHostMeta.Namespace ingHost) (IngressHostMeta.Cluster ingHost)))"

section \<open>The retry layer\<close>

text \<open>
  \<open>utils.ExtractNamespaceObjectName\<close>, the lookup of the graph-layer queue and
  \<open>nodes.PublishKeyToRestLayer\<close> are not among the sources; they are the arguments
  \<open>extract\<close>, \<open>sharedQueue\<close> and \<open>publish\<close>. The publication returns the queue after it
  and an outcome of any type, which the caller does not read. The result is the queue
  after the call and the returned error, \<open>None\<close> for nil.
\<close>

definition SyncFromRetryLayer ::
  "(string \<Rightarrow> string \<times> string) \<Rightarrow> (string \<Rightarrow> string \<Rightarrow> string \<Rightarrow> 'q \<Rightarrow> 'q \<times> 'r)
     \<Rightarrow> 'q \<Rightarrow> string \<Rightarrow> 'q \<times> string option" where
  "SyncFromRetryLayer extract publish sharedQueue key =
     (case extract key of
        (tenant, gsName) \<Rightarrow>
          (case publish tenant gsName ''retry'' sharedQueue of
             (sharedQueue', outcome) \<Rightarrow> (sharedQueue', None)))"

section \<open>Notions used to state the properties\<close>

text \<open>The entry of the filter's traffic split that \<open>AddToFilter\<close> makes of a policy's entry.\<close>

definition toClusterTraffic :: "TrafficSplitElem \<Rightarrow> ClusterTraffic" where
  "toClusterTraffic ts =
     \<lparr>ClusterName = TrafficSplitElem.Cluster ts,
      ClusterTraffic.Weight = TrafficSplitElem.Weight ts\<rparr>"

text \<open>
  What a selector of a policy normalises to: its label pair when it has exactly one,
  no selector otherwise.
\<close>

definition selectorOf :: "labels \<Rightarrow> Label option" where
  "selectorOf lbl =
     (if length lbl = 1
      then (case getLabelKeyAndValue lbl of (k, v) \<Rightarrow> Some \<lparr>Key = k, Value = v\<rparr>)
      else None)"

definition nsFilterOf :: "(string \<Rightarrow> uint32) \<Rightarrow> labels \<Rightarrow> NamespaceFilter option" where
  "nsFilterOf H lbl = (if length lbl = 1 then Some (createNewNSFilter H lbl) else None)"

text \<open>
  The checksum field of a namespace filter is the hash of its label: so
  \<open>createNewNSFilter\<close>, the only constructor, sets it, and nothing changes it later.
\<close>

definition nsChecksumFromLabel :: "(string \<Rightarrow> uint32) \<Rightarrow> GlobalFilter \<Rightarrow> bool" where
  "nsChecksumFromLabel H gf =
     (case NSFilter gf of
        None \<Rightarrow> True
      | Some nsf \<Rightarrow> NamespaceFilter.Checksum nsf = H (Key nsf @ Value nsf))"

definition trafficHash :: "(string \<Rightarrow> uint32) \<Rightarrow> ClusterTraffic \<Rightarrow> uint32" where
  "trafficHash H ts = H (ClusterName ts @ Itoa (sint (ClusterTraffic.Weight ts)))"

text \<open>No cluster name is listed with two different weights.\<close>

definition oneWeightPerCluster :: "TrafficSplitElem list \<Rightarrow> bool" where
  "oneWeightPerCluster elems =
     list_all (\<lambda>a. list_all (\<lambda>b. TrafficSplitElem.Cluster a \<noteq> TrafficSplitElem.Cluster b
                                  \<or> TrafficSplitElem.Weight a = TrafficSplitElem.Weight b) elems) elems"

text \<open>
  The change of the traffic weights as the specification words it: the lengths of the
  two lists differ, or a cluster of the old list is absent from the new list, or the
  weight of a cluster differs between the two.
\<close>

definition trafficWeightChangedSpec ::
  "GlobalDeploymentPolicy \<Rightarrow> GlobalDeploymentPolicy \<Rightarrow> bool" where
  "trafficWeightChangedSpec new old =
     (length (GlobalDeploymentPolicy.TrafficSplit old)
        \<noteq> length (GlobalDeploymentPolicy.TrafficSplit new)
      \<or> (\<exists>om \<in> set (GlobalDeploymentPolicy.TrafficSplit old).
            TrafficSplitElem.Cluster om
              \<notin> TrafficSplitElem.Cluster ` set (GlobalDeploymentPolicy.TrafficSplit new))
      \<or> (\<exists>om \<in> set (GlobalDeploymentPolicy.TrafficSplit old).
            \<exists>nm \<in> set (GlobalDeploymentPolicy.TrafficSplit new).
              TrafficSplitElem.Cluster om = TrafficSplitElem.Cluster nm
              \<and> TrafficSplitElem.Weight om \<noteq> TrafficSplitElem.Weight nm))"

subsection \<open>Example values\<close>

definition fooIngressHost :: "string \<Rightarrow> IngressHostMeta" where
  "fooIngressHost cname =
     \<lparr>IngressHostMeta.Cluster = cname, IngName = ''ing'', ObjName = ''ing/foo.com'',
      IngressHostMeta.Namespace = ''default'', IngressHostMeta.Hostname = ''foo.com'',
      IngressHostMeta.IPAddr = ''10.0.0.1'', IngressHostMeta.Labels = [(''app'', ''gslb'')],
      IngressHostMeta.Paths = [''/''], IngressHostMeta.TLS = False\<rparr>"

definition fooRoute :: "string \<Rightarrow> bool \<Rightarrow> RouteMeta" where
  "fooRoute cname passthrough =
     \<lparr>RouteMeta.Cluster = cname, RouteMeta.Name = ''rt'', RouteMeta.Namespace = ''default'',
      RouteMeta.Hostname = ''foo.com'', RouteMeta.IPAddr = ''10.0.0.1'',
      RouteMeta.Labels = [(''app'', ''gslb'')],
      RouteMeta.Paths = (if passthrough then [] else [''/'']), RouteMeta.TLS = False,
      Port = (if passthrough then 443 else 0),
      Protocol = (if passthrough then ''TCP'' else []), Passthrough = passthrough\<rparr>"

definition appFilterFor :: "string list \<Rightarrow> GlobalFilter" where
  "appFilterFor clusters =
     \<lparr>AppFilter = Some \<lparr>Key = ''app'', Value = ''gslb''\<rparr>, NSFilter = None,
      GlobalFilter.TrafficSplit = [], ApplicableClusters = clusters,
      GlobalFilter.Checksum = 0\<rparr>"

definition examplePolicy :: "string list \<Rightarrow> TrafficSplitElem list \<Rightarrow> GlobalDeploymentPolicy" where
  "examplePolicy clusters elems =
     \<lparr>AppSelectorLabel = [(''app'', ''gslb'')], NamespaceSelectorLabel = [(''ns'', ''prod'')],
      MatchClusters = clusters, GlobalDeploymentPolicy.TrafficSplit = elems\<rparr>"

text \<open>A policy without selectors.\<close>

definition noSelectorPolicy :: "string list \<Rightarrow> TrafficSplitElem list \<Rightarrow> GlobalDeploymentPolicy" where
  "noSelectorPolicy clusters elems =
     \<lparr>AppSelectorLabel = [], NamespaceSelectorLabel = [],
      MatchClusters = clusters, GlobalDeploymentPolicy.TrafficSplit = elems\<rparr>"

definition weightOf :: "string \<Rightarrow> uint32 \<Rightarrow> TrafficSplitElem" where
  "weightOf cname w = \<lparr>TrafficSplitElem.Cluster = cname, TrafficSplitElem.Weight = w\<rparr>"

text \<open>An ingress with two rules of the same host.\<close>

definition twoRulesIngress :: Ingress where
  "twoRulesIngress =
     \<lparr>Ingress.Name = ''ing'', Ingress.Namespace = ''default'', Ingress.Labels = [],
      Rules = [\<lparr>Host = ''foo.com'', HTTP = Some [\<lparr>Path = ''/a''\<rparr>]\<rparr>,
               \<lparr>Host = ''foo.com'', HTTP = Some [\<lparr>Path = ''/b''\<rparr>]\<rparr>],
      Ingress.TLS = []\<rparr>"

text \<open>
  An ingress with two hosts: \<open>a.com\<close> is listed under TLS and has two distinct paths,
  one of them twice; \<open>b.com\<close> is not listed under TLS and has no path.
\<close>

definition twoHostsIngress :: Ingress where
  "twoHostsIngress =
     \<lparr>Ingress.Name = ''ing'', Ingress.Namespace = ''default'',
      Ingress.Labels = [(''app'', ''gslb'')],
      Rules = [\<lparr>Host = ''a.com'', HTTP = Some [\<lparr>Path = ''/x''\<rparr>, \<lparr>Path = ''/y''\<rparr>, \<lparr>Path = ''/x''\<rparr>]\<rparr>,
               \<lparr>Host = ''b.com'', HTTP = None\<rparr>],
      Ingress.TLS = [\<lparr>Hosts = [''a.com'']\<rparr>]\<rparr>"

definition twoHostsAddrs :: "Ingress \<Rightarrow> IngressHostIP list" where
  "twoHostsAddrs ingress =
     [\<lparr>IngressHostIP.Hostname = ''a.com'', IngressHostIP.IPAddr = ''10.0.0.1''\<rparr>,
      \<lparr>IngressHostIP.Hostname = ''b.com'', IngressHostIP.IPAddr = ''10.0.0.2''\<rparr>]"

section \<open>The filter decision\<close>

lemma PresentInList_iff: "PresentInList key strList \<longleftrightarrow> key \<in> set strList"
  by (induction strList) auto

text \<open>
  C7. A candidate (ingress host or route) whose cluster is not in \<open>ApplicableClusters\<close> is
  rejected by \<open>ApplyFilter\<close>, whatever the namespace and application selectors are; in
  particular every candidate is rejected when the cluster list is empty, which is never
  read as "all clusters".
\<close>

theorem ApplyFilter_rejects_unlisted_cluster:
  "(IngressHostMeta.Cluster ihm \<notin> set (ApplicableClusters gf)
      \<longrightarrow> IngressHostMeta_ApplyFilter gf ihm = False)
   \<and> (RouteMeta.Cluster route \<notin> set (ApplicableClusters gf)
      \<longrightarrow> RouteMeta_ApplyFilter gf route = False)
   \<and> (ApplicableClusters gf = []
      \<longrightarrow> IngressHostMeta_ApplyFilter gf ihm = False \<and> RouteMeta_ApplyFilter gf route = False)"
  by (simp add: IngressHostMeta_ApplyFilter_def RouteMeta_ApplyFilter_def PresentInList_iff)

theorem ApplyFilter_rejects_unlisted_cluster_witness:
  "IngressHostMeta.Cluster (fooIngressHost ''c2'') \<notin> set (ApplicableClusters (appFilterFor [''c1'']))
   \<and> IngressHostMeta_ApplyFilter (appFilterFor [''c1'']) (fooIngressHost ''c2'') = False
   \<and> RouteMeta.Cluster (fooRoute ''c2'' False) \<notin> set (ApplicableClusters (appFilterFor [''c1'']))
   \<and> RouteMeta_ApplyFilter (appFilterFor [''c1'']) (fooRoute ''c2'' False) = False
   \<and> ApplicableClusters (appFilterFor []) = []
   \<and> IngressHostMeta_ApplyFilter (appFilterFor []) (fooIngressHost ''c2'') = False
   \<and> RouteMeta_ApplyFilter (appFilterFor []) (fooRoute ''c2'' False) = False"
proof -
  have h1: "IngressHostMeta.Cluster (fooIngressHost ''c2'')
      \<notin> set (ApplicableClusters (appFilterFor [''c1'']))"
    by (simp add: fooIngressHost_def appFilterFor_def)
  have h2: "RouteMeta.Cluster (fooRoute ''c2'' False)
      \<notin> set (ApplicableClusters (appFilterFor [''c1'']))"
    by (simp add: fooRoute_def appFilterFor_def)
  have h3: "ApplicableClusters (appFilterFor []) = []"
    by (simp add: appFilterFor_def)
  note a = ApplyFilter_rejects_unlisted_cluster
    [where ihm = "fooIngressHost ''c2''" and route = "fooRoute ''c2'' False"
       and gf = "appFilterFor [''c1'']"]
  note b = ApplyFilter_rejects_unlisted_cluster
    [where ihm = "fooIngressHost ''c2''" and route = "fooRoute ''c2'' False"
       and gf = "appFilterFor []"]
  show ?thesis using h1 h2 h3 a b by blast
qed

section \<open>Port and protocol\<close>

text \<open>
  C8. \<open>GetPort\<close> and \<open>GetProtocol\<close> return an error exactly when the object is not a
  passthrough route: for every ingress host they return an error, for a route they
  return an error if and only if the route is not passthrough, and for a passthrough
  route they return the stored port and protocol with a nil error. (The functions are
  total: no input makes them panic.)
\<close>

theorem GetPort_GetProtocol_error_iff_not_passthrough:
  "snd (IngressHostMeta_GetPort ing) \<noteq> None
   \<and> snd (IngressHostMeta_GetProtocol ing) \<noteq> None
   \<and> (snd (RouteMeta_GetPort route) \<noteq> None \<longleftrightarrow> \<not> Passthrough route)
   \<and> (snd (RouteMeta_GetProtocol route) \<noteq> None \<longleftrightarrow> \<not> Passthrough route)
   \<and> (Passthrough route \<longrightarrow>
        RouteMeta_GetPort route = (Port route, None)
        \<and> RouteMeta_GetProtocol route = (Protocol route, None))"
  by (simp add: IngressHostMeta_GetPort_def IngressHostMeta_GetProtocol_def
      RouteMeta_GetPort_def RouteMeta_GetProtocol_def)

theorem GetPort_GetProtocol_error_iff_not_passthrough_witness:
  "Passthrough (fooRoute ''c1'' True)
   \<and> RouteMeta_GetPort (fooRoute ''c1'' True) = (443, None)
   \<and> RouteMeta_GetProtocol (fooRoute ''c1'' True) = (''TCP'', None)
   \<and> snd (RouteMeta_GetPort (fooRoute ''c1'' False)) \<noteq> None
   \<and> snd (RouteMeta_GetProtocol (fooRoute ''c1'' False)) \<noteq> None
   \<and> snd (IngressHostMeta_GetPort (fooIngressHost ''c1'')) \<noteq> None
   \<and> snd (IngressHostMeta_GetProtocol (fooIngressHost ''c1'')) \<noteq> None"
  using GetPort_GetProtocol_error_iff_not_passthrough
      [where ing = "fooIngressHost ''c1''" and route = "fooRoute ''c1'' True"]
    GetPort_GetProtocol_error_iff_not_passthrough
      [where ing = "fooIngressHost ''c1''" and route = "fooRoute ''c1'' False"]
  by (simp add: fooRoute_def)

section \<open>The retry layer returns no error\<close>

text \<open>
  C10. \<open>SyncFromRetryLayer\<close> returns nil for every key, whatever the extraction of the
  namespace and name gives and whatever the outcome of the publication to the queue of
  the graph layer is: the function does not read that outcome.
\<close>

theorem SyncFromRetryLayer_returns_nil:
  "snd (SyncFromRetryLayer extract publish sharedQueue key) = None"
  by (simp add: SyncFromRetryLayer_def split: prod.splits)

section \<open>The host memory cache\<close>

lemma getIngHostMap_init [simp]: "ihMapInit (getIngHostMap s)"
  by (simp add: getIngHostMap_def)

lemma getIngHostMap_idem [simp]: "ihMapInit s \<Longrightarrow> getIngHostMap s = s"
  by (simp add: getIngHostMap_def)

lemma runCall_keeps_absent:
  "key \<notin> set (updatedKeys [c]) \<Longrightarrow> HostMap (ihMap (getIngHostMap s)) key = None
   \<Longrightarrow> HostMap (ihMap (getIngHostMap (runCall c s))) key = None"
  by (cases c) (simp_all add: UpdateHostMap_def GetHostnameFromHostMap_def DeleteMapByKey_def
      Let_def split: option.splits)

lemma runCalls_keeps_absent:
  "key \<notin> set (updatedKeys calls) \<Longrightarrow> HostMap (ihMap (getIngHostMap s)) key = None
   \<Longrightarrow> HostMap (ihMap (getIngHostMap (runCalls calls s))) key = None"
proof (induction calls arbitrary: s)
  case Nil
  then show ?case by simp
next
  case (Cons c calls)
  have "key \<notin> set (updatedKeys [c])" and "key \<notin> set (updatedKeys calls)"
    using Cons.prems(1) by (cases c; simp)+
  then show ?case
    using Cons.IH [of "runCall c s"] runCall_keeps_absent [of key c s] Cons.prems(2) by simp
qed

text \<open>
  C9. After any history of calls on the cache since the start of the process in which
  \<open>UpdateHostMap\<close> was never called with the key, \<open>GetHostnameFromHostMap\<close> returns the
  empty string for the key (the function has no error result); and in every state of
  the cache, \<open>UpdateHostMap\<close> of a key followed by \<open>DeleteMapByKey\<close> of the key makes
  \<open>GetHostnameFromHostMap\<close> return the empty string for it.
\<close>

theorem GetHostnameFromHostMap_empty_when_absent:
  "(key \<notin> set (updatedKeys calls) \<longrightarrow>
      fst (GetHostnameFromHostMap ing key (runCalls calls initialHostMapVars)) = [])
   \<and> fst (GetHostnameFromHostMap ingG key
            (DeleteMapByKey ingD key (UpdateHostMap ingU key s))) = []"
proof -
  have a: "HostMap (ihMap (getIngHostMap initialHostMapVars)) key = None"
    by (simp add: getIngHostMap_def initialHostMapVars_def)
  have "key \<notin> set (updatedKeys calls) \<Longrightarrow>
      fst (GetHostnameFromHostMap ing key (runCalls calls initialHostMapVars)) = []"
    using runCalls_keeps_absent [OF _ a, of calls]
    by (simp add: GetHostnameFromHostMap_def Let_def)
  moreover have "fst (GetHostnameFromHostMap ingG key
      (DeleteMapByKey ingD key (UpdateHostMap ingU key s))) = []"
    by (simp add: GetHostnameFromHostMap_def DeleteMapByKey_def UpdateHostMap_def Let_def)
  ultimately show ?thesis by blast
qed

theorem GetHostnameFromHostMap_empty_when_absent_witness:
  "''k1'' \<notin> set (updatedKeys [CallUpdate (fooIngressHost ''c1'') ''k2'',
                               CallGet (fooIngressHost ''c1'') ''k1'',
                               CallDelete (fooIngressHost ''c1'') ''k2''])
   \<and> fst (GetHostnameFromHostMap (fooIngressHost ''c1'') ''k1''
            (runCalls [CallUpdate (fooIngressHost ''c1'') ''k2'',
                       CallGet (fooIngressHost ''c1'') ''k1'',
                       CallDelete (fooIngressHost ''c1'') ''k2''] initialHostMapVars)) = []
   \<and> fst (GetHostnameFromHostMap (fooIngressHost ''c1'') ''k1''
            (DeleteMapByKey (fooIngressHost ''c1'') ''k1''
               (UpdateHostMap (fooIngressHost ''c1'') ''k1'' initialHostMapVars))) = []"
proof -
  have h: "''k1'' \<notin> set (updatedKeys [CallUpdate (fooIngressHost ''c1'') ''k2'',
                               CallGet (fooIngressHost ''c1'') ''k1'',
                               CallDelete (fooIngressHost ''c1'') ''k2''])"
    by simp
  note a = GetHostnameFromHostMap_empty_when_absent
    [where key = "''k1''" and ing = "fooIngressHost ''c1''" and ingU = "fooIngressHost ''c1''"
       and ingD = "fooIngressHost ''c1''" and ingG = "fooIngressHost ''c1''"
       and s = initialHostMapVars
       and calls = "[CallUpdate (fooIngressHost ''c1'') ''k2'',
                     CallGet (fooIngressHost ''c1'') ''k1'',
                     CallDelete (fooIngressHost ''c1'') ''k2'']"]
  show ?thesis using h a by blast
qed

section \<open>The cluster object store\<close>

text \<open>
  In the store itself, deleting under the triple of an entry just added removes it.
\<close>

lemma DeleteClusterNSObj_after_AddOrUpdate:
  "GetClusterNSObjectByName
     (DeleteClusterNSObj (AddOrUpdate store obj cname ns objName) cname ns objName)
     cname ns objName = None"
  by (simp add: GetClusterNSObjectByName_def DeleteClusterNSObj_def AddOrUpdate_def Let_def)

text \<open>
  C4. Adding an ingress host under a cluster and then deleting it under the same cluster
  should leave no entry under (cluster, namespace, object name). The code passes the
  arguments of \<open>DeleteClusterNSObj\<close> in the order (object name, namespace, cluster of the
  object), so the entry added under cluster \<open>c1\<close> stays in the store.
\<close>

theorem DeleteFromIngressStore_keeps_added_entry:
  "map_option (\<lambda>store. GetClusterNSObjectByName store ''c1'' ''default'' ''ing/foo.com'')
     (DeleteFromIngressStore
        (Some (AddOrUpdateIngressStore Map.empty (fooIngressHost ''c1'') ''c1''))
        (fooIngressHost ''c1'') ''c1'')
   = Some (Some (fooIngressHost ''c1''))"
  by (simp add: DeleteFromIngressStore_def AddOrUpdateIngressStore_def AddOrUpdate_def
      DeleteClusterNSObj_def GetClusterNSObjectByName_def fooIngressHost_def)

section \<open>The checksum of the global filter\<close>

lemma foldl_add_sum_list:
  "foldl (\<lambda>cksum x. cksum + f x) (a :: uint32) xs = a + sum_list (map f xs)"
  by (induction xs arbitrary: a) (simp_all add: add.assoc)

lemma sum_list_map_mset:
  "mset xs = mset ys \<Longrightarrow> sum_list (map f xs) = (sum_list (map f ys) :: uint32)"
proof -
  assume "mset xs = mset ys"
  then have "mset (map f xs) = mset (map f ys)" by (metis mset_map)
  then have "sum_mset (mset (map f xs)) = sum_mset (mset (map f ys))" by simp
  then show ?thesis by (simp only: sum_mset_sum_list)
qed

lemma Checksum_ComputeChecksum:
  "GlobalFilter.Checksum (ComputeChecksum H gf) =
     (case AppFilter gf of None \<Rightarrow> 0 | Some af \<Rightarrow> H (Key af @ Value af))
     + (case NSFilter gf of None \<Rightarrow> 0 | Some nsf \<Rightarrow> NamespaceFilter.Checksum nsf)
     + sum_list (map H (ApplicableClusters gf))
     + sum_list (map (trafficHash H) (GlobalFilter.TrafficSplit gf))"
proof -
  have th: "trafficHash H = (\<lambda>ts. H (ClusterName ts @ Itoa (sint (ClusterTraffic.Weight ts))))"
    by (rule ext) (simp add: trafficHash_def)
  show ?thesis
    by (simp add: ComputeChecksum_def Let_def foldl_add_sum_list th split: option.splits)
qed

lemma ComputeChecksum_fields [simp]:
  "AppFilter (ComputeChecksum H gf) = AppFilter gf"
  "NSFilter (ComputeChecksum H gf) = NSFilter gf"
  "ApplicableClusters (ComputeChecksum H gf) = ApplicableClusters gf"
  "GlobalFilter.TrafficSplit (ComputeChecksum H gf) = GlobalFilter.TrafficSplit gf"
  by (simp_all add: ComputeChecksum_def Let_def)

lemma ComputeChecksum_idem: "ComputeChecksum H (ComputeChecksum H gf) = ComputeChecksum H gf"
  by (simp add: ComputeChecksum_def Let_def)

lemma foldl_append_traffic:
  "foldl (\<lambda>g ts. g\<lparr>GlobalFilter.TrafficSplit :=
                      GlobalFilter.TrafficSplit g @
                        [\<lparr>ClusterName = TrafficSplitElem.Cluster ts,
                          ClusterTraffic.Weight = TrafficSplitElem.Weight ts\<rparr>]\<rparr>) g xs
   = g\<lparr>GlobalFilter.TrafficSplit := GlobalFilter.TrafficSplit g @ map toClusterTraffic xs\<rparr>"
  by (induction xs arbitrary: g) (simp_all add: toClusterTraffic_def)

lemma AddToFilter_unfold:
  "AddToFilter H gf gdp =
     ComputeChecksum H
       (gf\<lparr>AppFilter := (if length (AppSelectorLabel gdp) = 1
                          then selectorOf (AppSelectorLabel gdp) else AppFilter gf),
           NSFilter := (if length (NamespaceSelectorLabel gdp) = 1
                        then nsFilterOf H (NamespaceSelectorLabel gdp) else NSFilter gf),
           ApplicableClusters := MatchClusters gdp,
           GlobalFilter.TrafficSplit :=
             GlobalFilter.TrafficSplit gf
               @ map toClusterTraffic (GlobalDeploymentPolicy.TrafficSplit gdp)\<rparr>)"
  by (simp add: AddToFilter_def Let_def foldl_append_traffic selectorOf_def nsFilterOf_def
      split: prod.splits)

lemma AddToFilter_new:
  "AddToFilter H GetNewGlobalFilter gdp =
     ComputeChecksum H
       \<lparr>AppFilter = selectorOf (AppSelectorLabel gdp),
        NSFilter = nsFilterOf H (NamespaceSelectorLabel gdp),
        GlobalFilter.TrafficSplit = map toClusterTraffic (GlobalDeploymentPolicy.TrafficSplit gdp),
        ApplicableClusters = MatchClusters gdp,
        GlobalFilter.Checksum = 0\<rparr>"
  by (simp add: AddToFilter_unfold GetNewGlobalFilter_def selectorOf_def nsFilterOf_def)

text \<open>
  The relation between the checksum and the label of the namespace filter holds in the
  new filter and is kept by every operation that writes the filter.
\<close>

lemma nsChecksumFromLabel_kept:
  "nsChecksumFromLabel H GetNewGlobalFilter"
  "nsChecksumFromLabel H (DeleteFromGlobalFilter gf)"
  "nsChecksumFromLabel H gf \<Longrightarrow> nsChecksumFromLabel H (ComputeChecksum H gf)"
  "nsChecksumFromLabel H gf \<Longrightarrow> nsChecksumFromLabel H (AddToFilter H gf gdp)"
  "nsChecksumFromLabel H gf \<Longrightarrow> nsChecksumFromLabel H (fst (UpdateGlobalFilter H gf old new))"
  by (simp_all add: nsChecksumFromLabel_def GetNewGlobalFilter_def DeleteFromGlobalFilter_def
      AddToFilter_unfold UpdateGlobalFilter_def Let_def nsFilterOf_def createNewNSFilter_def
      split: prod.splits)

text \<open>
  C5. \<open>ComputeChecksum\<close> does not depend on the order of the lists: two filters with the
  same application selector, the same label of the namespace selector, the same
  clusters and the same (cluster, weight) entries, each list up to a permutation, get
  the same checksum. The namespace filters are those the code builds, whose own
  checksum field is the hash of their label.
\<close>

theorem ComputeChecksum_order_independent:
  assumes "AppFilter gf1 = AppFilter gf2"
    and "map_option (\<lambda>nsf. (Key nsf, Value nsf)) (NSFilter gf1)
           = map_option (\<lambda>nsf. (Key nsf, Value nsf)) (NSFilter gf2)"
    and "nsChecksumFromLabel H gf1" and "nsChecksumFromLabel H gf2"
    and "mset (ApplicableClusters gf1) = mset (ApplicableClusters gf2)"
    and "mset (GlobalFilter.TrafficSplit gf1) = mset (GlobalFilter.TrafficSplit gf2)"
  shows "GlobalFilter.Checksum (ComputeChecksum H gf1)
       = GlobalFilter.Checksum (ComputeChecksum H gf2)"
proof -
  have ns: "(case NSFilter gf1 of None \<Rightarrow> 0 | Some nsf \<Rightarrow> NamespaceFilter.Checksum nsf)
          = (case NSFilter gf2 of None \<Rightarrow> 0 | Some nsf \<Rightarrow> NamespaceFilter.Checksum nsf)"
    using assms(2,3,4) by (auto simp: nsChecksumFromLabel_def split: option.splits)
  have cl: "sum_list (map H (ApplicableClusters gf1)) = sum_list (map H (ApplicableClusters gf2))"
    using assms(5) by (rule sum_list_map_mset)
  have ts: "sum_list (map (trafficHash H) (GlobalFilter.TrafficSplit gf1))
          = sum_list (map (trafficHash H) (GlobalFilter.TrafficSplit gf2))"
    using assms(6) by (rule sum_list_map_mset)
  show ?thesis
    by (simp only: Checksum_ComputeChecksum assms(1) ns cl ts)
qed

theorem ComputeChecksum_order_independent_witness:
  "GlobalFilter.Checksum
     (ComputeChecksum fnv1a32
        \<lparr>AppFilter = Some \<lparr>Key = ''app'', Value = ''gslb''\<rparr>,
         NSFilter = Some (createNewNSFilter fnv1a32 [(''ns'', ''prod'')]),
         GlobalFilter.TrafficSplit = map toClusterTraffic [weightOf ''c1'' 10, weightOf ''c2'' 20],
         ApplicableClusters = [''c1'', ''c2''], GlobalFilter.Checksum = 0\<rparr>)
   = GlobalFilter.Checksum
     (ComputeChecksum fnv1a32
        \<lparr>AppFilter = Some \<lparr>Key = ''app'', Value = ''gslb''\<rparr>,
         NSFilter = Some (createNewNSFilter fnv1a32 [(''ns'', ''prod'')]),
         GlobalFilter.TrafficSplit = map toClusterTraffic [weightOf ''c2'' 20, weightOf ''c1'' 10],
         ApplicableClusters = [''c2'', ''c1''], GlobalFilter.Checksum = 7\<rparr>)"
  by (rule ComputeChecksum_order_independent)
    (simp_all add: nsChecksumFromLabel_def createNewNSFilter_def toClusterTraffic_def weightOf_def)

section \<open>Changes of the traffic weights\<close>

lemma scanNewMembers_absent:
  "TrafficSplitElem.Cluster oldMember \<notin> TrafficSplitElem.Cluster ` set newSplit
   \<Longrightarrow> scanNewMembers oldMember newSplit found = (False, found)"
  by (induction newSplit arbitrary: found) simp_all

lemma scanNewMembers_same_weights:
  "(\<And>n. n \<in> set newSplit \<Longrightarrow> TrafficSplitElem.Cluster n = TrafficSplitElem.Cluster oldMember
      \<Longrightarrow> TrafficSplitElem.Weight n = TrafficSplitElem.Weight oldMember)
   \<Longrightarrow> scanNewMembers oldMember newSplit found =
        (False, found \<or> TrafficSplitElem.Cluster oldMember \<in> TrafficSplitElem.Cluster ` set newSplit)"
proof (induction newSplit arbitrary: found)
  case Nil
  then show ?case by simp
next
  case (Cons n rest)
  have ih: "\<And>f. scanNewMembers oldMember rest f =
      (False, f \<or> TrafficSplitElem.Cluster oldMember \<in> TrafficSplitElem.Cluster ` set rest)"
    by (rule Cons.IH) (rule Cons.prems, simp_all)
  show ?case
  proof (cases "TrafficSplitElem.Cluster oldMember = TrafficSplitElem.Cluster n")
    case True
    then have "TrafficSplitElem.Weight n = TrafficSplitElem.Weight oldMember"
      using Cons.prems [of n] by simp
    with True show ?thesis by (simp add: ih)
  next
    case False
    then show ?thesis by (simp add: ih)
  qed
qed

lemma scanOldMembers_absent:
  "\<exists>m \<in> set oldSplit. TrafficSplitElem.Cluster m \<notin> TrafficSplitElem.Cluster ` set newSplit
   \<Longrightarrow> scanOldMembers oldSplit newSplit = True"
proof (induction oldSplit)
  case Nil
  then show ?case by simp
next
  case (Cons m rest)
  show ?case
  proof (cases "TrafficSplitElem.Cluster m \<in> TrafficSplitElem.Cluster ` set newSplit")
    case False
    then show ?thesis by (simp add: scanNewMembers_absent)
  next
    case True
    with Cons.prems have "\<exists>m \<in> set rest.
        TrafficSplitElem.Cluster m \<notin> TrafficSplitElem.Cluster ` set newSplit"
      by auto
    then have r: "scanOldMembers rest newSplit = True" by (rule Cons.IH)
    obtain a b where ab: "scanNewMembers m newSplit False = (a, b)"
      by (cases "scanNewMembers m newSplit False")
    show ?thesis by (cases a; cases b) (simp_all add: ab r)
  qed
qed

lemma scanOldMembers_unchanged:
  "(\<And>m. m \<in> set oldSplit \<Longrightarrow>
      TrafficSplitElem.Cluster m \<in> TrafficSplitElem.Cluster ` set newSplit
      \<and> (\<forall>n \<in> set newSplit. TrafficSplitElem.Cluster n = TrafficSplitElem.Cluster m
            \<longrightarrow> TrafficSplitElem.Weight n = TrafficSplitElem.Weight m))
   \<Longrightarrow> scanOldMembers oldSplit newSplit = False"
proof (induction oldSplit)
  case Nil
  then show ?case by simp
next
  case (Cons m rest)
  have r: "scanOldMembers rest newSplit = False"
    by (rule Cons.IH) (rule Cons.prems, simp)
  have "scanNewMembers m newSplit False =
      (False, False \<or> TrafficSplitElem.Cluster m \<in> TrafficSplitElem.Cluster ` set newSplit)"
    using Cons.prems [of m] by (intro scanNewMembers_same_weights) simp
  then have "scanNewMembers m newSplit False = (False, True)"
    using Cons.prems [of m] by simp
  then show ?case by (simp add: r)
qed

text \<open>
  C6, as amended. \<open>isTrafficWeightChanged\<close> returns true when a cluster of the old
  traffic split is absent from the new one, whatever the weights of the other clusters
  are. It returns false when the new traffic split is a permutation of the old one and
  no cluster name is listed with two different weights.
\<close>

theorem isTrafficWeightChanged_removed_or_reordered:
  "(c \<in> TrafficSplitElem.Cluster ` set (GlobalDeploymentPolicy.TrafficSplit old)
      \<and> c \<notin> TrafficSplitElem.Cluster ` set (GlobalDeploymentPolicy.TrafficSplit new)
      \<longrightarrow> isTrafficWeightChanged new old = True)
   \<and> (mset (GlobalDeploymentPolicy.TrafficSplit new) = mset (GlobalDeploymentPolicy.TrafficSplit old)
      \<and> oneWeightPerCluster (GlobalDeploymentPolicy.TrafficSplit old)
      \<longrightarrow> isTrafficWeightChanged new old = False)"
proof (intro conjI impI)
  assume "c \<in> TrafficSplitElem.Cluster ` set (GlobalDeploymentPolicy.TrafficSplit old)
      \<and> c \<notin> TrafficSplitElem.Cluster ` set (GlobalDeploymentPolicy.TrafficSplit new)"
  then have "\<exists>m \<in> set (GlobalDeploymentPolicy.TrafficSplit old).
      TrafficSplitElem.Cluster m
        \<notin> TrafficSplitElem.Cluster ` set (GlobalDeploymentPolicy.TrafficSplit new)"
    by auto
  then show "isTrafficWeightChanged new old = True"
    by (simp add: isTrafficWeightChanged_def scanOldMembers_absent)
next
  assume a: "mset (GlobalDeploymentPolicy.TrafficSplit new)
        = mset (GlobalDeploymentPolicy.TrafficSplit old)
      \<and> oneWeightPerCluster (GlobalDeploymentPolicy.TrafficSplit old)"
  then have len: "length (GlobalDeploymentPolicy.TrafficSplit new)
      = length (GlobalDeploymentPolicy.TrafficSplit old)"
    by (metis size_mset)
  from a have st: "set (GlobalDeploymentPolicy.TrafficSplit new)
      = set (GlobalDeploymentPolicy.TrafficSplit old)"
    by (metis set_mset_mset)
  from a have "oneWeightPerCluster (GlobalDeploymentPolicy.TrafficSplit old)"
    by (rule conjunct2)
  then have ow: "\<forall>x \<in> set (GlobalDeploymentPolicy.TrafficSplit old).
      \<forall>y \<in> set (GlobalDeploymentPolicy.TrafficSplit old).
        TrafficSplitElem.Cluster x \<noteq> TrafficSplitElem.Cluster y
        \<or> TrafficSplitElem.Weight x = TrafficSplitElem.Weight y"
    unfolding oneWeightPerCluster_def list_all_iff .
  have "scanOldMembers (GlobalDeploymentPolicy.TrafficSplit old)
      (GlobalDeploymentPolicy.TrafficSplit new) = False"
  proof (rule scanOldMembers_unchanged, intro conjI ballI impI)
    fix m
    assume m: "m \<in> set (GlobalDeploymentPolicy.TrafficSplit old)"
    then show "TrafficSplitElem.Cluster m
        \<in> TrafficSplitElem.Cluster ` set (GlobalDeploymentPolicy.TrafficSplit new)"
      unfolding st by (rule imageI)
  next
    fix m n
    assume m: "m \<in> set (GlobalDeploymentPolicy.TrafficSplit old)"
      and n: "n \<in> set (GlobalDeploymentPolicy.TrafficSplit new)"
      and c: "TrafficSplitElem.Cluster n = TrafficSplitElem.Cluster m"
    from n have "n \<in> set (GlobalDeploymentPolicy.TrafficSplit old)" unfolding st .
    with ow m c show "TrafficSplitElem.Weight n = TrafficSplitElem.Weight m" by blast
  qed
  with len show "isTrafficWeightChanged new old = False"
    by (simp add: isTrafficWeightChanged_def)
qed

theorem isTrafficWeightChanged_removed_or_reordered_witness:
  "''c2'' \<in> TrafficSplitElem.Cluster ` set (GlobalDeploymentPolicy.TrafficSplit
       (examplePolicy [''c1'', ''c2''] [weightOf ''c1'' 10, weightOf ''c2'' 20]))
   \<and> ''c2'' \<notin> TrafficSplitElem.Cluster ` set (GlobalDeploymentPolicy.TrafficSplit
       (examplePolicy [''c1'', ''c3''] [weightOf ''c1'' 10, weightOf ''c3'' 20]))
   \<and> isTrafficWeightChanged
       (examplePolicy [''c1'', ''c3''] [weightOf ''c1'' 10, weightOf ''c3'' 20])
       (examplePolicy [''c1'', ''c2''] [weightOf ''c1'' 10, weightOf ''c2'' 20]) = True
   \<and> mset (GlobalDeploymentPolicy.TrafficSplit
       (examplePolicy [''c2'', ''c1''] [weightOf ''c2'' 20, weightOf ''c1'' 10]))
     = mset (GlobalDeploymentPolicy.TrafficSplit
       (examplePolicy [''c1'', ''c2''] [weightOf ''c1'' 10, weightOf ''c2'' 20]))
   \<and> oneWeightPerCluster (GlobalDeploymentPolicy.TrafficSplit
       (examplePolicy [''c1'', ''c2''] [weightOf ''c1'' 10, weightOf ''c2'' 20]))
   \<and> isTrafficWeightChanged
       (examplePolicy [''c2'', ''c1''] [weightOf ''c2'' 20, weightOf ''c1'' 10])
       (examplePolicy [''c1'', ''c2''] [weightOf ''c1'' 10, weightOf ''c2'' 20]) = False"
proof -
  let ?old = "examplePolicy [''c1'', ''c2''] [weightOf ''c1'' 10, weightOf ''c2'' 20]"
  let ?removed = "examplePolicy [''c1'', ''c3''] [weightOf ''c1'' 10, weightOf ''c3'' 20]"
  let ?reordered = "examplePolicy [''c2'', ''c1''] [weightOf ''c2'' 20, weightOf ''c1'' 10]"
  have h1: "''c2'' \<in> TrafficSplitElem.Cluster ` set (GlobalDeploymentPolicy.TrafficSplit ?old)"
    by (simp add: examplePolicy_def weightOf_def)
  have h2: "''c2'' \<notin> TrafficSplitElem.Cluster ` set (GlobalDeploymentPolicy.TrafficSplit ?removed)"
    by (simp add: examplePolicy_def weightOf_def)
  have c1: "isTrafficWeightChanged ?removed ?old = True"
    using isTrafficWeightChanged_removed_or_reordered
      [where c = "''c2''" and old = ?old and new = ?removed] h1 h2
    by blast
  have h3: "mset (GlobalDeploymentPolicy.TrafficSplit ?reordered)
      = mset (GlobalDeploymentPolicy.TrafficSplit ?old)"
    by (simp add: examplePolicy_def weightOf_def)
  have h4: "oneWeightPerCluster (GlobalDeploymentPolicy.TrafficSplit ?old)"
    by (simp add: examplePolicy_def weightOf_def oneWeightPerCluster_def)
  have c2: "isTrafficWeightChanged ?reordered ?old = False"
    using isTrafficWeightChanged_removed_or_reordered
      [where c = "''c2''" and old = ?old and new = ?reordered] h3 h4
    by blast
  show ?thesis
    by (intro conjI h1 h2 c1 h3 h4 c2)
qed

text \<open>
  The second half of the claim as stated fails when a cluster name is listed twice with
  two weights: the new list holds the same pairs as the old one in another order, and
  the function returns true.
\<close>

theorem isTrafficWeightChanged_reordered_counterexample:
  "mset (GlobalDeploymentPolicy.TrafficSplit
         (examplePolicy [''c1''] [weightOf ''c1'' 2, weightOf ''c1'' 1]))
   = mset (GlobalDeploymentPolicy.TrafficSplit
         (examplePolicy [''c1''] [weightOf ''c1'' 1, weightOf ''c1'' 2]))
   \<and> isTrafficWeightChanged
       (examplePolicy [''c1''] [weightOf ''c1'' 2, weightOf ''c1'' 1])
       (examplePolicy [''c1''] [weightOf ''c1'' 1, weightOf ''c1'' 2])
     = True"
  by (simp add: examplePolicy_def weightOf_def isTrafficWeightChanged_def)

section \<open>What isTrafficWeightChanged computes\<close>

lemma scanNewMembers_mismatch:
  "\<exists>n \<in> set newSplit. TrafficSplitElem.Cluster oldMember = TrafficSplitElem.Cluster n
      \<and> TrafficSplitElem.Weight oldMember \<noteq> TrafficSplitElem.Weight n
   \<Longrightarrow> scanNewMembers oldMember newSplit found = (True, True)"
proof (induction newSplit arbitrary: found)
  case Nil
  then show ?case by simp
next
  case (Cons n rest)
  show ?case
  proof (cases "TrafficSplitElem.Cluster oldMember = TrafficSplitElem.Cluster n
      \<and> TrafficSplitElem.Weight oldMember \<noteq> TrafficSplitElem.Weight n")
    case True
    then show ?thesis by simp
  next
    case False
    with Cons.prems have ex: "\<exists>n \<in> set rest.
        TrafficSplitElem.Cluster oldMember = TrafficSplitElem.Cluster n
        \<and> TrafficSplitElem.Weight oldMember \<noteq> TrafficSplitElem.Weight n"
      by auto
    have ih: "\<And>f. scanNewMembers oldMember rest f = (True, True)"
      using ex by (rule Cons.IH)
    from False show ?thesis by (simp add: ih)
  qed
qed

lemma scanOldMembers_iff:
  "scanOldMembers oldSplit newSplit \<longleftrightarrow>
     (\<exists>om \<in> set oldSplit.
        TrafficSplitElem.Cluster om \<notin> TrafficSplitElem.Cluster ` set newSplit
        \<or> (\<exists>nm \<in> set newSplit. TrafficSplitElem.Cluster om = TrafficSplitElem.Cluster nm
              \<and> TrafficSplitElem.Weight om \<noteq> TrafficSplitElem.Weight nm))"
proof (induction oldSplit)
  case Nil
  show ?case by simp
next
  case (Cons m rest)
  let ?mis = "\<exists>nm \<in> set newSplit. TrafficSplitElem.Cluster m = TrafficSplitElem.Cluster nm
      \<and> TrafficSplitElem.Weight m \<noteq> TrafficSplitElem.Weight nm"
  let ?abs = "TrafficSplitElem.Cluster m \<notin> TrafficSplitElem.Cluster ` set newSplit"
  show ?case
  proof (cases ?mis)
    case True
    then have "scanNewMembers m newSplit False = (True, True)"
      by (rule scanNewMembers_mismatch)
    then have "scanOldMembers (m # rest) newSplit" by simp
    with True show ?thesis by auto
  next
    case False
    then have same: "\<And>n. n \<in> set newSplit
        \<Longrightarrow> TrafficSplitElem.Cluster n = TrafficSplitElem.Cluster m
        \<Longrightarrow> TrafficSplitElem.Weight n = TrafficSplitElem.Weight m"
      by metis
    have sn: "scanNewMembers m newSplit False =
        (False, False \<or> TrafficSplitElem.Cluster m \<in> TrafficSplitElem.Cluster ` set newSplit)"
      by (rule scanNewMembers_same_weights) (rule same)
    show ?thesis
    proof (cases ?abs)
      case True
      with sn have "scanOldMembers (m # rest) newSplit" by simp
      with True show ?thesis by auto
    next
      case present: False
      with sn have "scanOldMembers (m # rest) newSplit = scanOldMembers rest newSplit" by simp
      with Cons.IH False present show ?thesis by auto
    qed
  qed
qed

lemma isTrafficWeightChanged_spec:
  "isTrafficWeightChanged new old = trafficWeightChangedSpec new old"
proof (cases "length (GlobalDeploymentPolicy.TrafficSplit old)
    \<noteq> length (GlobalDeploymentPolicy.TrafficSplit new)")
  case True
  then show ?thesis
    by (simp add: isTrafficWeightChanged_def trafficWeightChangedSpec_def)
next
  case False
  then have "isTrafficWeightChanged new old
      = scanOldMembers (GlobalDeploymentPolicy.TrafficSplit old)
          (GlobalDeploymentPolicy.TrafficSplit new)"
    by (simp add: isTrafficWeightChanged_def)
  with False show ?thesis
    unfolding trafficWeightChangedSpec_def scanOldMembers_iff by blast
qed

lemma TrafficSplitElem_eqI:
  "TrafficSplitElem.Cluster (a :: TrafficSplitElem) = TrafficSplitElem.Cluster b
   \<Longrightarrow> TrafficSplitElem.Weight a = TrafficSplitElem.Weight b \<Longrightarrow> a = b"
  by (cases a, cases b) simp

text \<open>
  When each list names every cluster once, the function says whether the two lists
  differ as sets of (cluster, weight) pairs.
\<close>

lemma trafficWeightChangedSpec_distinct:
  assumes dold: "distinct (map TrafficSplitElem.Cluster (GlobalDeploymentPolicy.TrafficSplit old))"
    and dnew: "distinct (map TrafficSplitElem.Cluster (GlobalDeploymentPolicy.TrafficSplit new))"
  shows "trafficWeightChangedSpec new old
     \<longleftrightarrow> set (GlobalDeploymentPolicy.TrafficSplit old) \<noteq> set (GlobalDeploymentPolicy.TrafficSplit new)"
proof -
  let ?os = "GlobalDeploymentPolicy.TrafficSplit old"
  let ?ns = "GlobalDeploymentPolicy.TrafficSplit new"
  have do: "distinct ?os" and dn: "distinct ?ns"
    using dold dnew by (simp_all add: distinct_map)
  have injn: "inj_on TrafficSplitElem.Cluster (set ?ns)"
    using dnew by (simp add: distinct_map)
  show ?thesis
  proof
    assume ch: "trafficWeightChangedSpec new old"
    show "set ?os \<noteq> set ?ns"
    proof
      assume eq: "set ?os = set ?ns"
      have "card (set ?os) = card (set ?ns)" using eq by simp
      then have len: "length ?os = length ?ns"
        using do dn by (simp add: distinct_card)
      have nabs: "\<not> (\<exists>om \<in> set ?os.
          TrafficSplitElem.Cluster om \<notin> TrafficSplitElem.Cluster ` set ?ns)"
        unfolding eq by blast
      have nmis: "\<not> (\<exists>om \<in> set ?os. \<exists>nm \<in> set ?ns.
          TrafficSplitElem.Cluster om = TrafficSplitElem.Cluster nm
          \<and> TrafficSplitElem.Weight om \<noteq> TrafficSplitElem.Weight nm)"
      proof
        assume "\<exists>om \<in> set ?os. \<exists>nm \<in> set ?ns.
          TrafficSplitElem.Cluster om = TrafficSplitElem.Cluster nm
          \<and> TrafficSplitElem.Weight om \<noteq> TrafficSplitElem.Weight nm"
        then obtain om nm where om: "om \<in> set ?ns" and nm: "nm \<in> set ?ns"
          and c: "TrafficSplitElem.Cluster om = TrafficSplitElem.Cluster nm"
          and w: "TrafficSplitElem.Weight om \<noteq> TrafficSplitElem.Weight nm"
          unfolding eq by blast
        have "om = nm" by (rule inj_onD [OF injn c om nm])
        with w show False by simp
      qed
      from ch len nabs nmis show False
        unfolding trafficWeightChangedSpec_def by blast
    qed
  next
    assume ne: "set ?os \<noteq> set ?ns"
    show "trafficWeightChangedSpec new old"
    proof (rule ccontr)
      assume "\<not> trafficWeightChangedSpec new old"
      then have len: "length ?os = length ?ns"
        and pres: "\<And>om. om \<in> set ?os
            \<Longrightarrow> TrafficSplitElem.Cluster om \<in> TrafficSplitElem.Cluster ` set ?ns"
        and same: "\<And>om nm. om \<in> set ?os \<Longrightarrow> nm \<in> set ?ns
            \<Longrightarrow> TrafficSplitElem.Cluster om = TrafficSplitElem.Cluster nm
            \<Longrightarrow> TrafficSplitElem.Weight om = TrafficSplitElem.Weight nm"
        unfolding trafficWeightChangedSpec_def by blast+
      have sub: "set ?os \<subseteq> set ?ns"
      proof
        fix om assume om: "om \<in> set ?os"
        from pres [OF om] obtain nm where nm: "nm \<in> set ?ns"
          and c: "TrafficSplitElem.Cluster om = TrafficSplitElem.Cluster nm"
          by blast
        from same [OF om nm c] c have "om = nm" by (intro TrafficSplitElem_eqI)
        with nm show "om \<in> set ?ns" by simp
      qed
      have "card (set ?os) = card (set ?ns)"
        using len do dn by (simp add: distinct_card)
      with sub have "set ?os = set ?ns"
        by (intro card_subset_eq) simp_all
      with ne show False by contradiction
    qed
  qed
qed

section \<open>Building the filter from a policy\<close>

text \<open>
  C3, as amended. For every filter and every policy, after \<open>AddToFilter\<close>: the applicable
  clusters are the policy's; each selector is the one built from the policy when the
  policy has exactly one label pair for it, and the selector the filter held before
  otherwise, so that it is the one built from the policy whenever the policy has
  exactly one pair or the filter held none; the traffic split is the list the filter
  held before followed by the policy's entries, so that it is exactly the policy's list
  if and only if the filter held no traffic weight; and the checksum is the one computed
  over the content of the resulting filter.
\<close>

theorem AddToFilter_rebuilds_fields:
  "AppFilter (AddToFilter H gf p)
     = (if length (AppSelectorLabel p) = 1 then selectorOf (AppSelectorLabel p)
        else AppFilter gf)
   \<and> NSFilter (AddToFilter H gf p)
     = (if length (NamespaceSelectorLabel p) = 1 then nsFilterOf H (NamespaceSelectorLabel p)
        else NSFilter gf)
   \<and> ApplicableClusters (AddToFilter H gf p) = MatchClusters p
   \<and> GlobalFilter.TrafficSplit (AddToFilter H gf p)
     = GlobalFilter.TrafficSplit gf
         @ map toClusterTraffic (GlobalDeploymentPolicy.TrafficSplit p)
   \<and> (AppFilter gf = None \<or> length (AppSelectorLabel p) = 1
      \<longrightarrow> AppFilter (AddToFilter H gf p) = selectorOf (AppSelectorLabel p))
   \<and> (NSFilter gf = None \<or> length (NamespaceSelectorLabel p) = 1
      \<longrightarrow> NSFilter (AddToFilter H gf p) = nsFilterOf H (NamespaceSelectorLabel p))
   \<and> (GlobalFilter.TrafficSplit gf = []
      \<longleftrightarrow> GlobalFilter.TrafficSplit (AddToFilter H gf p)
            = map toClusterTraffic (GlobalDeploymentPolicy.TrafficSplit p))
   \<and> GlobalFilter.Checksum (AddToFilter H gf p)
     = (case AppFilter (AddToFilter H gf p) of
          None \<Rightarrow> 0 | Some af \<Rightarrow> H (Key af @ Value af))
       + (case NSFilter (AddToFilter H gf p) of
            None \<Rightarrow> 0 | Some nsf \<Rightarrow> NamespaceFilter.Checksum nsf)
       + sum_list (map H (ApplicableClusters (AddToFilter H gf p)))
       + sum_list (map (trafficHash H) (GlobalFilter.TrafficSplit (AddToFilter H gf p)))"
proof -
  let ?r = "AddToFilter H gf p"
  have app: "AppFilter ?r
      = (if length (AppSelectorLabel p) = 1 then selectorOf (AppSelectorLabel p)
         else AppFilter gf)"
    by (simp add: AddToFilter_unfold)
  have ns: "NSFilter ?r
      = (if length (NamespaceSelectorLabel p) = 1
         then nsFilterOf H (NamespaceSelectorLabel p) else NSFilter gf)"
    by (simp add: AddToFilter_unfold)
  have cl: "ApplicableClusters ?r = MatchClusters p"
    by (simp add: AddToFilter_unfold)
  have ts: "GlobalFilter.TrafficSplit ?r
      = GlobalFilter.TrafficSplit gf
          @ map toClusterTraffic (GlobalDeploymentPolicy.TrafficSplit p)"
    by (simp add: AddToFilter_unfold)
  have app': "AppFilter gf = None \<or> length (AppSelectorLabel p) = 1
      \<longrightarrow> AppFilter ?r = selectorOf (AppSelectorLabel p)"
    unfolding app by (simp add: selectorOf_def)
  have ns': "NSFilter gf = None \<or> length (NamespaceSelectorLabel p) = 1
      \<longrightarrow> NSFilter ?r = nsFilterOf H (NamespaceSelectorLabel p)"
    unfolding ns by (simp add: nsFilterOf_def)
  have ts': "GlobalFilter.TrafficSplit gf = []
      \<longleftrightarrow> GlobalFilter.TrafficSplit ?r
            = map toClusterTraffic (GlobalDeploymentPolicy.TrafficSplit p)"
    unfolding ts by simp
  have "ComputeChecksum H ?r = ?r"
    by (simp add: AddToFilter_unfold ComputeChecksum_idem)
  then have "GlobalFilter.Checksum ?r = GlobalFilter.Checksum (ComputeChecksum H ?r)"
    by simp
  then have ck: "GlobalFilter.Checksum ?r
      = (case AppFilter ?r of None \<Rightarrow> 0 | Some af \<Rightarrow> H (Key af @ Value af))
        + (case NSFilter ?r of None \<Rightarrow> 0 | Some nsf \<Rightarrow> NamespaceFilter.Checksum nsf)
        + sum_list (map H (ApplicableClusters ?r))
        + sum_list (map (trafficHash H) (GlobalFilter.TrafficSplit ?r))"
    by (simp only: Checksum_ComputeChecksum)
  show ?thesis
    by (intro conjI app ns cl ts app' ns' ts' ck)
qed

theorem AddToFilter_rebuilds_fields_witness:
  "length (AppSelectorLabel (examplePolicy [''c1''] [weightOf ''c1'' 10])) = 1
   \<and> NSFilter (appFilterFor [''c3'']) = None
   \<and> GlobalFilter.TrafficSplit (appFilterFor [''c3'']) = []
   \<and> AppFilter (AddToFilter fnv1a32 (appFilterFor [''c3''])
         (examplePolicy [''c1''] [weightOf ''c1'' 10]))
     = Some \<lparr>Key = ''app'', Value = ''gslb''\<rparr>
   \<and> NSFilter (AddToFilter fnv1a32 (appFilterFor [''c3''])
         (examplePolicy [''c1''] [weightOf ''c1'' 10]))
     = Some (createNewNSFilter fnv1a32 [(''ns'', ''prod'')])
   \<and> GlobalFilter.TrafficSplit
       (AddToFilter fnv1a32 (appFilterFor [''c3''])
         (examplePolicy [''c1''] [weightOf ''c1'' 10]))
     = [\<lparr>ClusterName = ''c1'', ClusterTraffic.Weight = 10\<rparr>]
   \<and> ApplicableClusters
       (AddToFilter fnv1a32 (appFilterFor [''c3''])
         (examplePolicy [''c1''] [weightOf ''c1'' 10]))
     = [''c1'']"
proof -
  let ?gf = "appFilterFor [''c3'']"
  let ?p = "examplePolicy [''c1''] [weightOf ''c1'' 10]"
  have h1: "length (AppSelectorLabel ?p) = 1"
    by (simp add: examplePolicy_def)
  have h2: "NSFilter ?gf = None" and h3: "GlobalFilter.TrafficSplit ?gf = []"
    by (simp_all add: appFilterFor_def)
  note a = AddToFilter_rebuilds_fields [where gf = ?gf and H = fnv1a32 and p = ?p]
  have c1: "AppFilter (AddToFilter fnv1a32 ?gf ?p) = selectorOf (AppSelectorLabel ?p)"
    and c2: "NSFilter (AddToFilter fnv1a32 ?gf ?p)
      = nsFilterOf fnv1a32 (NamespaceSelectorLabel ?p)"
    and c3: "GlobalFilter.TrafficSplit (AddToFilter fnv1a32 ?gf ?p)
      = map toClusterTraffic (GlobalDeploymentPolicy.TrafficSplit ?p)"
    and c4: "ApplicableClusters (AddToFilter fnv1a32 ?gf ?p) = MatchClusters ?p"
    using a h1 h2 h3 by blast+
  have e1: "selectorOf (AppSelectorLabel ?p) = Some \<lparr>Key = ''app'', Value = ''gslb''\<rparr>"
    by (simp add: examplePolicy_def selectorOf_def)
  have e2: "nsFilterOf fnv1a32 (NamespaceSelectorLabel ?p)
      = Some (createNewNSFilter fnv1a32 [(''ns'', ''prod'')])"
    by (simp add: examplePolicy_def nsFilterOf_def)
  have e3: "map toClusterTraffic (GlobalDeploymentPolicy.TrafficSplit ?p)
      = [\<lparr>ClusterName = ''c1'', ClusterTraffic.Weight = 10\<rparr>]"
    by (simp add: examplePolicy_def toClusterTraffic_def weightOf_def)
  have e4: "MatchClusters ?p = [''c1'']"
    by (simp add: examplePolicy_def)
  show ?thesis
    using h1 h2 h3 c1 c2 c3 c4 unfolding e1 e2 e3 e4 by (intro conjI)
qed

text \<open>
  The claim as stated fails on a filter that already holds a traffic weight or a
  selector: the entries of the policy are appended to those of the filter, and a
  selector that the policy does not give stays.
\<close>

theorem AddToFilter_accumulates_counterexample:
  "GlobalFilter.TrafficSplit
     (AddToFilter fnv1a32
        (AddToFilter fnv1a32 GetNewGlobalFilter (examplePolicy [''c1''] [weightOf ''c1'' 5]))
        (examplePolicy [''c1''] [weightOf ''c1'' 10]))
     = [\<lparr>ClusterName = ''c1'', ClusterTraffic.Weight = 5\<rparr>,
        \<lparr>ClusterName = ''c1'', ClusterTraffic.Weight = 10\<rparr>]
   \<and> GlobalFilter.TrafficSplit
     (AddToFilter fnv1a32
        (AddToFilter fnv1a32 GetNewGlobalFilter (examplePolicy [''c1''] [weightOf ''c1'' 5]))
        (examplePolicy [''c1''] [weightOf ''c1'' 10]))
     \<noteq> map toClusterTraffic
         (GlobalDeploymentPolicy.TrafficSplit (examplePolicy [''c1''] [weightOf ''c1'' 10]))
   \<and> AppFilter (AddToFilter fnv1a32 (appFilterFor [''c1''])
        (noSelectorPolicy [''c1''] [weightOf ''c1'' 10]))
     = Some \<lparr>Key = ''app'', Value = ''gslb''\<rparr>
   \<and> selectorOf (AppSelectorLabel (noSelectorPolicy [''c1''] [weightOf ''c1'' 10])) = None"
  by (simp add: AddToFilter_unfold GetNewGlobalFilter_def examplePolicy_def weightOf_def
      toClusterTraffic_def noSelectorPolicy_def appFilterFor_def selectorOf_def)

section \<open>Updating the global filter\<close>

lemma candidate_checksum_eq:
  assumes "selectorOf (AppSelectorLabel old) = selectorOf (AppSelectorLabel new)"
    and "selectorOf (NamespaceSelectorLabel old) = selectorOf (NamespaceSelectorLabel new)"
    and "mset (MatchClusters old) = mset (MatchClusters new)"
    and "mset (GlobalDeploymentPolicy.TrafficSplit old)
           = mset (GlobalDeploymentPolicy.TrafficSplit new)"
  shows "GlobalFilter.Checksum (AddToFilter H GetNewGlobalFilter old)
       = GlobalFilter.Checksum (AddToFilter H GetNewGlobalFilter new)"
proof -
  have ns: "(case nsFilterOf H (NamespaceSelectorLabel old) of None \<Rightarrow> 0
             | Some nsf \<Rightarrow> NamespaceFilter.Checksum nsf)
          = (case nsFilterOf H (NamespaceSelectorLabel new) of None \<Rightarrow> 0
             | Some nsf \<Rightarrow> NamespaceFilter.Checksum nsf)"
    using assms(2)
    by (auto simp: nsFilterOf_def selectorOf_def createNewNSFilter_def
        split: if_splits prod.splits)
  have cl: "sum_list (map H (MatchClusters old)) = sum_list (map H (MatchClusters new))"
    using assms(3) by (rule sum_list_map_mset)
  have "mset (map toClusterTraffic (GlobalDeploymentPolicy.TrafficSplit old))
      = mset (map toClusterTraffic (GlobalDeploymentPolicy.TrafficSplit new))"
    using assms(4) by (metis mset_map)
  then have ts:
    "sum_list (map (trafficHash H) (map toClusterTraffic (GlobalDeploymentPolicy.TrafficSplit old)))
   = sum_list (map (trafficHash H) (map toClusterTraffic (GlobalDeploymentPolicy.TrafficSplit new)))"
    by (rule sum_list_map_mset)
  show ?thesis
    unfolding AddToFilter_new Checksum_ComputeChecksum
    using assms(1) ns cl ts by simp
qed

text \<open>The checksums of the candidates of the example policies, with the FNV-1a hash.\<close>

lemma example_candidate_checksums:
  "GlobalFilter.Checksum (AddToFilter fnv1a32 GetNewGlobalFilter
      (examplePolicy [''c2'', ''c1''] [weightOf ''c2'' 20, weightOf ''c1'' 10])) \<noteq> 0"
  "GlobalFilter.Checksum (AddToFilter fnv1a32 GetNewGlobalFilter
      (examplePolicy [''c1'', ''c2''] [weightOf ''c1'' 1, weightOf ''c1'' 1, weightOf ''c2'' 2]))
   \<noteq> GlobalFilter.Checksum (AddToFilter fnv1a32 GetNewGlobalFilter
      (examplePolicy [''c1'', ''c2''] [weightOf ''c1'' 1, weightOf ''c2'' 2, weightOf ''c2'' 2]))"
  "GlobalFilter.Checksum (AddToFilter fnv1a32 GetNewGlobalFilter
      (examplePolicy [''c1'', ''c2''] [weightOf ''c1'' 30, weightOf ''c2'' 20])) \<noteq> 0"
  by (simp_all add: AddToFilter_new Checksum_ComputeChecksum
      examplePolicy_def weightOf_def selectorOf_def nsFilterOf_def createNewNSFilter_def
      toClusterTraffic_def trafficHash_def Itoa_def digits.simps fnv1a32_def)

lemma GetNewGlobalFilter_Checksum: "GlobalFilter.Checksum GetNewGlobalFilter = 0"
  by (simp add: GetNewGlobalFilter_def)

text \<open>
  C2, as amended. \<open>UpdateGlobalFilter\<close> builds the candidate filter from the new policy
  on a new filter and compares its checksum with the live filter's. When they are equal
  it returns (false, false) and the live filter is unchanged. When they differ the live
  filter gets the candidate's AppFilter, NSFilter, TrafficSplit, ApplicableClusters and
  Checksum, and the result is (true, t), where t is true if and only if the two traffic
  splits differ in length, or a cluster of the old one is absent from the new one, or
  an entry of the old one and an entry of the new one name the same cluster with
  different weights; when each of the two lists names every cluster once, t says
  whether the two lists differ as sets of (cluster, weight) pairs. When the live filter
  has the checksum of the candidate of the old policy, and the two policies normalise to
  the same selectors and have the same clusters and the same traffic split up to the
  order of the lists, the result is (false, false) and the live filter is unchanged.
\<close>

theorem UpdateGlobalFilter_checksum_gate:
  "(GlobalFilter.Checksum gf = GlobalFilter.Checksum (AddToFilter H GetNewGlobalFilter new)
      \<longrightarrow> UpdateGlobalFilter H gf old new = (gf, False, False))
   \<and> (GlobalFilter.Checksum gf \<noteq> GlobalFilter.Checksum (AddToFilter H GetNewGlobalFilter new)
      \<longrightarrow> UpdateGlobalFilter H gf old new =
            (gf\<lparr>AppFilter := AppFilter (AddToFilter H GetNewGlobalFilter new),
                NSFilter := NSFilter (AddToFilter H GetNewGlobalFilter new),
                GlobalFilter.TrafficSplit :=
                  GlobalFilter.TrafficSplit (AddToFilter H GetNewGlobalFilter new),
                ApplicableClusters := ApplicableClusters (AddToFilter H GetNewGlobalFilter new),
                GlobalFilter.Checksum :=
                  GlobalFilter.Checksum (AddToFilter H GetNewGlobalFilter new)\<rparr>,
             True, trafficWeightChangedSpec new old))
   \<and> (GlobalFilter.Checksum gf \<noteq> GlobalFilter.Checksum (AddToFilter H GetNewGlobalFilter new)
      \<and> distinct (map TrafficSplitElem.Cluster (GlobalDeploymentPolicy.TrafficSplit old))
      \<and> distinct (map TrafficSplitElem.Cluster (GlobalDeploymentPolicy.TrafficSplit new))
      \<longrightarrow> snd (snd (UpdateGlobalFilter H gf old new))
            = (set (GlobalDeploymentPolicy.TrafficSplit old)
                 \<noteq> set (GlobalDeploymentPolicy.TrafficSplit new)))
   \<and> (GlobalFilter.Checksum gf = GlobalFilter.Checksum (AddToFilter H GetNewGlobalFilter old)
      \<and> selectorOf (AppSelectorLabel old) = selectorOf (AppSelectorLabel new)
      \<and> selectorOf (NamespaceSelectorLabel old) = selectorOf (NamespaceSelectorLabel new)
      \<and> mset (MatchClusters old) = mset (MatchClusters new)
      \<and> mset (GlobalDeploymentPolicy.TrafficSplit old)
          = mset (GlobalDeploymentPolicy.TrafficSplit new)
      \<longrightarrow> UpdateGlobalFilter H gf old new = (gf, False, False))"
proof (intro conjI impI)
  assume "GlobalFilter.Checksum gf = GlobalFilter.Checksum (AddToFilter H GetNewGlobalFilter new)"
  then show "UpdateGlobalFilter H gf old new = (gf, False, False)"
    by (simp add: UpdateGlobalFilter_def Let_def)
next
  assume "GlobalFilter.Checksum gf \<noteq> GlobalFilter.Checksum (AddToFilter H GetNewGlobalFilter new)"
  then show "UpdateGlobalFilter H gf old new =
            (gf\<lparr>AppFilter := AppFilter (AddToFilter H GetNewGlobalFilter new),
                NSFilter := NSFilter (AddToFilter H GetNewGlobalFilter new),
                GlobalFilter.TrafficSplit :=
                  GlobalFilter.TrafficSplit (AddToFilter H GetNewGlobalFilter new),
                ApplicableClusters := ApplicableClusters (AddToFilter H GetNewGlobalFilter new),
                GlobalFilter.Checksum :=
                  GlobalFilter.Checksum (AddToFilter H GetNewGlobalFilter new)\<rparr>,
             True, trafficWeightChangedSpec new old)"
    by (simp add: UpdateGlobalFilter_def Let_def isTrafficWeightChanged_spec)
next
  assume a: "GlobalFilter.Checksum gf
        \<noteq> GlobalFilter.Checksum (AddToFilter H GetNewGlobalFilter new)
      \<and> distinct (map TrafficSplitElem.Cluster (GlobalDeploymentPolicy.TrafficSplit old))
      \<and> distinct (map TrafficSplitElem.Cluster (GlobalDeploymentPolicy.TrafficSplit new))"
  then have "snd (snd (UpdateGlobalFilter H gf old new)) = trafficWeightChangedSpec new old"
    by (simp add: UpdateGlobalFilter_def Let_def isTrafficWeightChanged_spec)
  also have "\<dots> = (set (GlobalDeploymentPolicy.TrafficSplit old)
      \<noteq> set (GlobalDeploymentPolicy.TrafficSplit new))"
    using a by (intro trafficWeightChangedSpec_distinct) simp_all
  finally show "snd (snd (UpdateGlobalFilter H gf old new))
      = (set (GlobalDeploymentPolicy.TrafficSplit old)
           \<noteq> set (GlobalDeploymentPolicy.TrafficSplit new))" .
next
  assume a: "GlobalFilter.Checksum gf
        = GlobalFilter.Checksum (AddToFilter H GetNewGlobalFilter old)
      \<and> selectorOf (AppSelectorLabel old) = selectorOf (AppSelectorLabel new)
      \<and> selectorOf (NamespaceSelectorLabel old) = selectorOf (NamespaceSelectorLabel new)
      \<and> mset (MatchClusters old) = mset (MatchClusters new)
      \<and> mset (GlobalDeploymentPolicy.TrafficSplit old)
          = mset (GlobalDeploymentPolicy.TrafficSplit new)"
  then have "GlobalFilter.Checksum (AddToFilter H GetNewGlobalFilter old)
      = GlobalFilter.Checksum (AddToFilter H GetNewGlobalFilter new)"
    by (intro candidate_checksum_eq) blast+
  with a have "GlobalFilter.Checksum gf
      = GlobalFilter.Checksum (AddToFilter H GetNewGlobalFilter new)"
    by (elim conjE) (rule trans)
  then show "UpdateGlobalFilter H gf old new = (gf, False, False)"
    by (simp add: UpdateGlobalFilter_def Let_def)
qed

theorem UpdateGlobalFilter_checksum_gate_witness:
  "GlobalFilter.Checksum GetNewGlobalFilter
     \<noteq> GlobalFilter.Checksum
         (AddToFilter fnv1a32 GetNewGlobalFilter
            (examplePolicy [''c2'', ''c1''] [weightOf ''c2'' 20, weightOf ''c1'' 10]))
   \<and> fst (snd (UpdateGlobalFilter fnv1a32 GetNewGlobalFilter
         (examplePolicy [''c1'', ''c2''] [weightOf ''c1'' 10, weightOf ''c2'' 20])
         (examplePolicy [''c2'', ''c1''] [weightOf ''c2'' 20, weightOf ''c1'' 10]))) = True
   \<and> snd (snd (UpdateGlobalFilter fnv1a32 GetNewGlobalFilter
         (examplePolicy [''c1'', ''c2''] [weightOf ''c1'' 10, weightOf ''c2'' 20])
         (examplePolicy [''c2'', ''c1''] [weightOf ''c2'' 20, weightOf ''c1'' 10]))) = False
   \<and> snd (snd (UpdateGlobalFilter fnv1a32 GetNewGlobalFilter
         (examplePolicy [''c1'', ''c2''] [weightOf ''c1'' 10, weightOf ''c2'' 20])
         (examplePolicy [''c1'', ''c2''] [weightOf ''c1'' 30, weightOf ''c2'' 20]))) = True
   \<and> mset (MatchClusters (examplePolicy [''c1'', ''c2''] [weightOf ''c1'' 10, weightOf ''c2'' 20]))
     = mset (MatchClusters (examplePolicy [''c2'', ''c1''] [weightOf ''c2'' 20, weightOf ''c1'' 10]))
   \<and> mset (GlobalDeploymentPolicy.TrafficSplit
         (examplePolicy [''c1'', ''c2''] [weightOf ''c1'' 10, weightOf ''c2'' 20]))
     = mset (GlobalDeploymentPolicy.TrafficSplit
         (examplePolicy [''c2'', ''c1''] [weightOf ''c2'' 20, weightOf ''c1'' 10]))
   \<and> UpdateGlobalFilter fnv1a32
       (AddToFilter fnv1a32 GetNewGlobalFilter
          (examplePolicy [''c1'', ''c2''] [weightOf ''c1'' 10, weightOf ''c2'' 20]))
       (examplePolicy [''c1'', ''c2''] [weightOf ''c1'' 10, weightOf ''c2'' 20])
       (examplePolicy [''c2'', ''c1''] [weightOf ''c2'' 20, weightOf ''c1'' 10])
     = (AddToFilter fnv1a32 GetNewGlobalFilter
          (examplePolicy [''c1'', ''c2''] [weightOf ''c1'' 10, weightOf ''c2'' 20]),
        False, False)"
proof -
  let ?old = "examplePolicy [''c1'', ''c2''] [weightOf ''c1'' 10, weightOf ''c2'' 20]"
  let ?new = "examplePolicy [''c2'', ''c1''] [weightOf ''c2'' 20, weightOf ''c1'' 10]"
  let ?changed = "examplePolicy [''c1'', ''c2''] [weightOf ''c1'' 30, weightOf ''c2'' 20]"
  have h1: "GlobalFilter.Checksum GetNewGlobalFilter
      \<noteq> GlobalFilter.Checksum (AddToFilter fnv1a32 GetNewGlobalFilter ?new)"
    unfolding GetNewGlobalFilter_Checksum
    by (rule not_sym) (rule example_candidate_checksums(1))
  have h1': "GlobalFilter.Checksum GetNewGlobalFilter
      \<noteq> GlobalFilter.Checksum (AddToFilter fnv1a32 GetNewGlobalFilter ?changed)"
    unfolding GetNewGlobalFilter_Checksum
    by (rule not_sym) (rule example_candidate_checksums(3))
  have d1: "distinct (map TrafficSplitElem.Cluster (GlobalDeploymentPolicy.TrafficSplit ?old))"
    and d2: "distinct (map TrafficSplitElem.Cluster (GlobalDeploymentPolicy.TrafficSplit ?new))"
    and d3: "distinct (map TrafficSplitElem.Cluster (GlobalDeploymentPolicy.TrafficSplit ?changed))"
    by (simp_all add: examplePolicy_def weightOf_def)
  have s1: "set (GlobalDeploymentPolicy.TrafficSplit ?old)
      = set (GlobalDeploymentPolicy.TrafficSplit ?new)"
    by (simp add: examplePolicy_def weightOf_def insert_commute)
  have "weightOf ''c1'' 30 \<in> set (GlobalDeploymentPolicy.TrafficSplit ?changed)"
    and "weightOf ''c1'' 30 \<notin> set (GlobalDeploymentPolicy.TrafficSplit ?old)"
    by (simp_all add: examplePolicy_def weightOf_def)
  then have s2: "set (GlobalDeploymentPolicy.TrafficSplit ?old)
      \<noteq> set (GlobalDeploymentPolicy.TrafficSplit ?changed)"
    by blast
  note a = UpdateGlobalFilter_checksum_gate
    [where gf = GetNewGlobalFilter and H = fnv1a32 and old = ?old and new = ?new]
  note b = UpdateGlobalFilter_checksum_gate
    [where gf = GetNewGlobalFilter and H = fnv1a32 and old = ?old and new = ?changed]
  have c1: "fst (snd (UpdateGlobalFilter fnv1a32 GetNewGlobalFilter ?old ?new)) = True"
    using a h1 by simp
  have "snd (snd (UpdateGlobalFilter fnv1a32 GetNewGlobalFilter ?old ?new))
      = (set (GlobalDeploymentPolicy.TrafficSplit ?old)
           \<noteq> set (GlobalDeploymentPolicy.TrafficSplit ?new))"
    using a h1 d1 d2 by blast
  then have c2: "snd (snd (UpdateGlobalFilter fnv1a32 GetNewGlobalFilter ?old ?new)) = False"
    using s1 by simp
  have "snd (snd (UpdateGlobalFilter fnv1a32 GetNewGlobalFilter ?old ?changed))
      = (set (GlobalDeploymentPolicy.TrafficSplit ?old)
           \<noteq> set (GlobalDeploymentPolicy.TrafficSplit ?changed))"
    using b h1' d1 d3 by blast
  then have c3: "snd (snd (UpdateGlobalFilter fnv1a32 GetNewGlobalFilter ?old ?changed)) = True"
    using s2 by simp
  have h2: "selectorOf (AppSelectorLabel ?old) = selectorOf (AppSelectorLabel ?new)"
    by (simp add: examplePolicy_def)
  have h3: "selectorOf (NamespaceSelectorLabel ?old) = selectorOf (NamespaceSelectorLabel ?new)"
    by (simp add: examplePolicy_def)
  have h4: "mset (MatchClusters ?old) = mset (MatchClusters ?new)"
    by (simp add: examplePolicy_def)
  have h5: "mset (GlobalDeploymentPolicy.TrafficSplit ?old)
      = mset (GlobalDeploymentPolicy.TrafficSplit ?new)"
    by (simp add: examplePolicy_def weightOf_def)
  have c4: "UpdateGlobalFilter fnv1a32 (AddToFilter fnv1a32 GetNewGlobalFilter ?old) ?old ?new
      = (AddToFilter fnv1a32 GetNewGlobalFilter ?old, False, False)"
    using UpdateGlobalFilter_checksum_gate
      [where gf = "AddToFilter fnv1a32 GetNewGlobalFilter ?old" and H = fnv1a32
         and old = ?old and new = ?new] h2 h3 h4 h5
    by blast
  show ?thesis
    by (intro conjI h1 c1 c2 c3 h4 h5 c4)
qed

text \<open>
  The claim as stated fails in two places. For a live filter that does not reflect the
  old policy (here the new filter), two policies that normalise to the same selectors,
  clusters and weights give (true, false), not (false, false). And t does not say
  whether the weights changed when a cluster is listed more than once: the two splits
  below differ, and t is false.
\<close>

theorem UpdateGlobalFilter_live_filter_counterexample:
  "selectorOf (AppSelectorLabel (examplePolicy [''c1'', ''c2''] [weightOf ''c1'' 10, weightOf ''c2'' 20]))
     = selectorOf (AppSelectorLabel (examplePolicy [''c2'', ''c1''] [weightOf ''c2'' 20, weightOf ''c1'' 10]))
   \<and> selectorOf (NamespaceSelectorLabel (examplePolicy [''c1'', ''c2''] [weightOf ''c1'' 10, weightOf ''c2'' 20]))
     = selectorOf (NamespaceSelectorLabel (examplePolicy [''c2'', ''c1''] [weightOf ''c2'' 20, weightOf ''c1'' 10]))
   \<and> mset (MatchClusters (examplePolicy [''c1'', ''c2''] [weightOf ''c1'' 10, weightOf ''c2'' 20]))
     = mset (MatchClusters (examplePolicy [''c2'', ''c1''] [weightOf ''c2'' 20, weightOf ''c1'' 10]))
   \<and> mset (GlobalDeploymentPolicy.TrafficSplit
         (examplePolicy [''c1'', ''c2''] [weightOf ''c1'' 10, weightOf ''c2'' 20]))
     = mset (GlobalDeploymentPolicy.TrafficSplit
         (examplePolicy [''c2'', ''c1''] [weightOf ''c2'' 20, weightOf ''c1'' 10]))
   \<and> snd (UpdateGlobalFilter fnv1a32 GetNewGlobalFilter
         (examplePolicy [''c1'', ''c2''] [weightOf ''c1'' 10, weightOf ''c2'' 20])
         (examplePolicy [''c2'', ''c1''] [weightOf ''c2'' 20, weightOf ''c1'' 10]))
     = (True, False)
   \<and> mset (GlobalDeploymentPolicy.TrafficSplit
         (examplePolicy [''c1'', ''c2''] [weightOf ''c1'' 1, weightOf ''c1'' 1, weightOf ''c2'' 2]))
     \<noteq> mset (GlobalDeploymentPolicy.TrafficSplit
         (examplePolicy [''c1'', ''c2''] [weightOf ''c1'' 1, weightOf ''c2'' 2, weightOf ''c2'' 2]))
   \<and> snd (UpdateGlobalFilter fnv1a32
         (AddToFilter fnv1a32 GetNewGlobalFilter
            (examplePolicy [''c1'', ''c2''] [weightOf ''c1'' 1, weightOf ''c1'' 1, weightOf ''c2'' 2]))
         (examplePolicy [''c1'', ''c2''] [weightOf ''c1'' 1, weightOf ''c1'' 1, weightOf ''c2'' 2])
         (examplePolicy [''c1'', ''c2''] [weightOf ''c1'' 1, weightOf ''c2'' 2, weightOf ''c2'' 2]))
     = (True, False)"
proof -
  let ?old = "examplePolicy [''c1'', ''c2''] [weightOf ''c1'' 10, weightOf ''c2'' 20]"
  let ?new = "examplePolicy [''c2'', ''c1''] [weightOf ''c2'' 20, weightOf ''c1'' 10]"
  let ?oldDup = "examplePolicy [''c1'', ''c2''] [weightOf ''c1'' 1, weightOf ''c1'' 1, weightOf ''c2'' 2]"
  let ?newDup = "examplePolicy [''c1'', ''c2''] [weightOf ''c1'' 1, weightOf ''c2'' 2, weightOf ''c2'' 2]"
  have h2: "selectorOf (AppSelectorLabel ?old) = selectorOf (AppSelectorLabel ?new)"
    by (simp add: examplePolicy_def)
  have h3: "selectorOf (NamespaceSelectorLabel ?old) = selectorOf (NamespaceSelectorLabel ?new)"
    by (simp add: examplePolicy_def)
  have h4: "mset (MatchClusters ?old) = mset (MatchClusters ?new)"
    by (simp add: examplePolicy_def)
  have h5: "mset (GlobalDeploymentPolicy.TrafficSplit ?old)
      = mset (GlobalDeploymentPolicy.TrafficSplit ?new)"
    by (simp add: examplePolicy_def weightOf_def)
  have k1: "GlobalFilter.Checksum GetNewGlobalFilter
      \<noteq> GlobalFilter.Checksum (AddToFilter fnv1a32 GetNewGlobalFilter ?new)"
    unfolding GetNewGlobalFilter_Checksum
    by (rule not_sym) (rule example_candidate_checksums(1))
  have t1: "isTrafficWeightChanged ?new ?old = False"
    by (simp add: isTrafficWeightChanged_def examplePolicy_def weightOf_def)
  have c1: "snd (UpdateGlobalFilter fnv1a32 GetNewGlobalFilter ?old ?new) = (True, False)"
    using k1 by (simp add: UpdateGlobalFilter_def Let_def t1)
  have m: "mset (GlobalDeploymentPolicy.TrafficSplit ?oldDup)
      \<noteq> mset (GlobalDeploymentPolicy.TrafficSplit ?newDup)"
    by (simp add: examplePolicy_def weightOf_def)
  have t2: "isTrafficWeightChanged ?newDup ?oldDup = False"
    by (simp add: isTrafficWeightChanged_def examplePolicy_def weightOf_def)
  have c2: "snd (UpdateGlobalFilter fnv1a32 (AddToFilter fnv1a32 GetNewGlobalFilter ?oldDup)
      ?oldDup ?newDup) = (True, False)"
    using example_candidate_checksums(2) by (simp add: UpdateGlobalFilter_def Let_def t2)
  show ?thesis
    by (intro conjI h2 h3 h4 h5 c1 m c2)
qed

section \<open>Expansion of an ingress\<close>

lemma dedup_seen_set: "set s1 = set s2 \<Longrightarrow> dedup s1 xs = dedup s2 xs"
proof (induction xs arbitrary: s1 s2)
  case Nil
  show ?case by simp
next
  case (Cons x xs)
  have a: "dedup s1 xs = dedup s2 xs"
    by (rule Cons.IH) (rule Cons.prems)
  have b: "dedup (x # s1) xs = dedup (x # s2) xs"
    by (rule Cons.IH) (simp add: Cons.prems)
  show ?case by (simp add: a b Cons.prems)
qed

lemma addRulePaths_dedup:
  "addRulePaths paths pathList = pathList @ dedup pathList (map (\<lambda>p. pathKeyOf (Path p)) paths)"
proof (induction paths arbitrary: pathList)
  case Nil
  then show ?case by simp
next
  case (Cons p paths)
  have "dedup (pathList @ [pathKeyOf (Path p)]) (map (\<lambda>p. pathKeyOf (Path p)) paths)
      = dedup (pathKeyOf (Path p) # pathList) (map (\<lambda>p. pathKeyOf (Path p)) paths)"
    by (rule dedup_seen_set) auto
  then show ?case
    using Cons.IH by (simp add: Let_def PresentInList_iff pathKeyOf_def)
qed

lemma scanRules_find:
  "scanRules host rules [] =
     (case find (\<lambda>rule. Host rule = host) rules of
        None \<Rightarrow> []
      | Some rule \<Rightarrow> dedup [] (map pathKeyOf (rulePaths rule)))"
  by (induction rules)
    (simp_all add: rulePaths_def addRulePaths_dedup comp_def split: option.splits)

lemma getPathsForHost_first_rule:
  "getPathsForHost host ingress = firstRulePathsForHost host ingress"
  by (simp add: getPathsForHost_def firstRulePathsForHost_def scanRules_find Let_def
      split: option.splits)

lemma set_addTLSHosts: "set (addTLSHosts hosts tlsHosts) = set tlsHosts \<union> set hosts"
  by (induction hosts arbitrary: tlsHosts) (auto simp: PresentInList_iff)

lemma set_foldl_addTLSHosts:
  "set (foldl (\<lambda>tlsHosts hosts. addTLSHosts (Hosts hosts) tlsHosts) acc tls)
     = set acc \<union> (\<Union>t \<in> set tls. set (Hosts t))"
  by (induction tls arbitrary: acc) (auto simp: set_addTLSHosts)

lemma PresentInList_getTLSHosts:
  "PresentInList host (getTLSHosts ingress)
     \<longleftrightarrow> (\<exists>t \<in> set (Ingress.TLS ingress). host \<in> set (Hosts t))"
  by (simp add: getTLSHosts_def PresentInList_iff set_foldl_addTLSHosts)

text \<open>
  C1, as amended. \<open>GetIngressHostMeta\<close> returns one object for each host that has an IP
  address, in their order. The path list of the object is that of the first rule of the
  ingress whose host is this host: its paths, an empty path counting as \<open>"/"\<close>, without
  duplicates and in the order of their first occurrence, and \<open>["/"]\<close> when this gives no
  path (no rule of the host, a rule without HTTP part, or no path in it). The TLS flag
  is true if and only if the host is among the hosts of a TLS entry of the ingress.
\<close>

theorem GetIngressHostMeta_paths_and_tls:
  "map (\<lambda>m. (IngressHostMeta.Hostname m, IngressHostMeta.Paths m, IngressHostMeta.TLS m))
     (GetIngressHostMeta IngressGetIPAddrs ingress cname)
   = map (\<lambda>hip. (IngressHostIP.Hostname hip,
                  firstRulePathsForHost (IngressHostIP.Hostname hip) ingress,
                  (\<exists>t \<in> set (Ingress.TLS ingress). IngressHostIP.Hostname hip \<in> set (Hosts t))))
       (IngressGetIPAddrs ingress)"
  by (simp add: GetIngressHostMeta_def Let_def comp_def getPathsForHost_first_rule
      PresentInList_getTLSHosts)

theorem GetIngressHostMeta_paths_and_tls_witness:
  "map (\<lambda>m. (IngressHostMeta.Hostname m, IngressHostMeta.Paths m, IngressHostMeta.TLS m))
     (GetIngressHostMeta twoHostsAddrs twoHostsIngress ''c1'')
   = [(''a.com'', [''/x'', ''/y''], True), (''b.com'', [''/''], False)]"
  using GetIngressHostMeta_paths_and_tls
    [where IngressGetIPAddrs = twoHostsAddrs and ingress = twoHostsIngress and cname = "''c1''"]
  by (simp add: twoHostsAddrs_def twoHostsIngress_def firstRulePathsForHost_def rulePaths_def
      pathKeyOf_def)

text \<open>
  The claim as stated fails on an ingress with two rules of one host: the paths of the
  second rule are in the union of the paths of the rules of the host, and the code
  leaves the loop after the first rule.
\<close>

theorem GetIngressHostMeta_paths_counterexample:
  "map IngressHostMeta.Paths
     (GetIngressHostMeta
        (\<lambda>ingress. [\<lparr>IngressHostIP.Hostname = ''foo.com'', IngressHostIP.IPAddr = ''10.0.0.1''\<rparr>])
        twoRulesIngress ''c1'')
     = [[''/a'']]
   \<and> specPathsForHost ''foo.com'' twoRulesIngress = [''/a'', ''/b'']"
  by (simp add: GetIngressHostMeta_def getPathsForHost_def specPathsForHost_def
      twoRulesIngress_def rulePaths_def Let_def)

end
